theory Spec2Isabelle
  imports Main "HOL-Library.AList"
begin

section \<open>Data model\<close>

text \<open>
  Timestamps (\<open>datetime.utcnow()\<close>, the \<open>TIMESTAMP\<close> columns) are counted in whole
  seconds since 1970-01-01 00:00:00, the granularity at which SQLite's
  \<open>datetime(...)\<close> compares them. File contents are byte strings.
\<close>

type_synonym datetime = int
type_synonym bytes = string

text \<open>
  The Python object \<open>FileShare\<close> (\<open>app/models/file_share.py\<close>, \<open>__init__\<close>).
  \<open>recipient_email\<close> and \<open>expires_at\<close> are tested for truthiness by \<open>is_expired\<close>,
  so both may be \<open>None\<close> in the object.
\<close>

record FileShare =
  token :: string
  recipient_email :: "string option"
  files :: "string list"
  created_at :: datetime
  expires_at :: "datetime option"
  downloaded :: bool
  download_count :: int
  downloaded_files :: "string list"

text \<open>
  One row of the table \<open>file_shares\<close> (\<open>init_db\<close>, \<open>upgrade_db_schema\<close>); the
  columns \<open>recipient_email\<close>, \<open>files\<close> and \<open>expires_at\<close> are \<open>NOT NULL\<close>. The
  JSON-encoded columns are kept decoded.
\<close>

record row =
  col_token :: string
  col_recipient_email :: string
  col_files :: "string list"
  col_created_at :: datetime
  col_expires_at :: datetime
  col_downloaded :: bool
  col_download_count :: int
  col_downloaded_files :: "string list"
  col_last_download_attempt :: "datetime option"
  col_last_download_completed :: "datetime option"

text \<open>
  The SQLite database behind \<open>get_db_connection\<close>: the rows of \<open>file_shares\<close> in
  insertion order, and whether the store is failing, in which case connecting or
  executing a statement raises \<open>sqlite3.Error\<close>.
\<close>

record database =
  file_shares :: "row list"
  unavailable :: bool

text \<open>Exceptions raised by the database and the file system.\<close>

datatype error =
    StorageError
  | FileNotFoundError
  | IsADirectoryError
  | NotADirectoryError
  | FileExistsError
  | PermissionError
  | OverflowError
  | ZeroDivisionError
  | UnboundLocalError

text \<open>
  Date arithmetic. A \<open>datetime\<close> lies between the years 1 and 9999, a \<open>timedelta\<close>
  spans at most 999999999 days in either direction; \<open>timedelta(hours=h)\<close> and the sum
  \<open>datetime + timedelta\<close> raise \<open>OverflowError\<close> outside these ranges. \<open>expiry\<close> is
  the expression \<open>now + timedelta(hours=retention_hours)\<close>.
\<close>

definition datetime_min :: datetime where
  "datetime_min = - 62135596800"

definition datetime_max :: datetime where
  "datetime_max = 253402300799"

definition timedelta_hours :: "int \<Rightarrow> error + int" where
  "timedelta_hours h =
     (if h div 24 < - 999999999 \<or> 999999999 < h div 24 then Inl OverflowError
      else Inr (3600 * h))"

definition datetime_add :: "datetime \<Rightarrow> int \<Rightarrow> error + datetime" where
  "datetime_add t delta =
     (if t + delta < datetime_min \<or> datetime_max < t + delta then Inl OverflowError
      else Inr (t + delta))"

definition expiry :: "datetime \<Rightarrow> int \<Rightarrow> error + datetime" where
  "expiry now retention_hours =
     (case timedelta_hours retention_hours of
        Inl e \<Rightarrow> Inl e
      | Inr delta \<Rightarrow> datetime_add now delta)"

section \<open>The token registry: \<open>FileShare\<close>\<close>

text \<open>The object built from a selected row (the body of \<open>if row:\<close> in \<open>get\<close>).\<close>

definition share_of_row :: "row \<Rightarrow> FileShare" where
  "share_of_row r =
     \<lparr>token = col_token r,
      recipient_email = Some (col_recipient_email r),
      files = col_files r,
      created_at = col_created_at r,
      expires_at = Some (col_expires_at r),
      downloaded = col_downloaded r,
      download_count = col_download_count r,
      downloaded_files = col_downloaded_files r\<rparr>"

text \<open>
  \<open>FileShare.get(token)\<close>: the whole body is inside \<open>try\<close>; on any exception the
  handler prints and returns \<open>None\<close>, the value also returned when no row matches.
\<close>

definition get :: "database \<Rightarrow> string \<Rightarrow> FileShare option" where
  "get db tok =
     (if unavailable db then None
      else (case find (\<lambda>r. col_token r = tok) (file_shares db) of
              Some r \<Rightarrow> Some (share_of_row r)
            | None \<Rightarrow> None))"

text \<open>
  \<open>FileShare.is_expired()\<close>, with the value of \<open>datetime.utcnow()\<close> as a parameter.
  \<open>not self.recipient_email\<close> holds for \<open>None\<close> and for the empty string.
\<close>

definition is_expired :: "datetime \<Rightarrow> FileShare \<Rightarrow> bool" where
  "is_expired now s =
     (if recipient_email s = None \<or> recipient_email s = Some [] then False
      else (case expires_at s of
              None \<Rightarrow> False
            | Some e \<Rightarrow> now > e))"

text \<open>
  \<open>ORDER BY created_at DESC\<close>: latest first; rows with the same \<open>created_at\<close> stay
  in insertion order (the sort is stable).
\<close>

definition order_by_created_at_desc :: "row list \<Rightarrow> row list" where
  "order_by_created_at_desc rs = sort_key (\<lambda>r. - col_created_at r) rs"

text \<open>
  \<open>FileShare.get_all_active()\<close>: rows with
  \<open>datetime(expires_at) > datetime('now')\<close>; an exception leaves the list empty.
\<close>

definition get_all_active :: "database \<Rightarrow> datetime \<Rightarrow> FileShare list" where
  "get_all_active db now =
     (if unavailable db then []
      else map share_of_row
             (order_by_created_at_desc
                (filter (\<lambda>r. col_expires_at r > now) (file_shares db))))"

text \<open>
  \<open>FileShare.get_all_paginated(page, per_page)\<close>. The class \<open>Pagination\<close> is declared
  inside the \<open>try\<close> block, after both queries. Its constructor divides by \<open>per_page\<close>.
  The handler returns \<open>Pagination(1, per_page, 0, [])\<close>: after a database error the
  name \<open>Pagination\<close> is not bound yet and the handler itself raises
  \<open>UnboundLocalError\<close>; after a division by zero in the constructor the handler's own
  call divides by zero again. \<open>LIMIT\<close> with a negative count returns all rows, a
  negative \<open>OFFSET\<close> counts as 0.
\<close>

record pagination =
  page :: int
  per_page :: int
  total :: int
  items :: "FileShare list"
  pages :: int
  has_prev :: bool
  has_next :: bool
  prev_num :: "int option"
  next_num :: "int option"

definition Pagination :: "int \<Rightarrow> int \<Rightarrow> int \<Rightarrow> FileShare list \<Rightarrow> error + pagination" where
  "Pagination pg per tot its =
     (if per = 0 then Inl ZeroDivisionError
      else (let pgs = (tot + per - 1) div per
            in Inr \<lparr>page = pg, per_page = per, total = tot, items = its, pages = pgs,
                     has_prev = (pg > 1), has_next = (pg < pgs),
                     prev_num = (if pg > 1 then Some (pg - 1) else None),
                     next_num = (if pg < pgs then Some (pg + 1) else None)\<rparr>))"

definition limit_offset :: "int \<Rightarrow> int \<Rightarrow> 'a list \<Rightarrow> 'a list" where
  "limit_offset lim off xs =
     (let ys = drop (nat off) xs in if lim < 0 then ys else take (nat lim) ys)"

definition get_all_paginated :: "database \<Rightarrow> int \<Rightarrow> int \<Rightarrow> error + pagination" where
  "get_all_paginated db pg per =
     (if unavailable db then Inl UnboundLocalError
      else (let offset = (pg - 1) * per;
                shares = map share_of_row
                           (limit_offset per offset (order_by_created_at_desc (file_shares db)));
                tot = int (length (file_shares db))
            in case Pagination pg per tot shares of
                 Inr p \<Rightarrow> Inr p
               | Inl e \<Rightarrow> Pagination 1 per 0 []))"

text \<open>\<open>FileShare.get_total_count()\<close> and \<open>FileShare.get_active_count()\<close>.\<close>

definition get_total_count :: "database \<Rightarrow> int" where
  "get_total_count db =
     (if unavailable db then 0 else int (length (file_shares db)))"

definition get_active_count :: "database \<Rightarrow> datetime \<Rightarrow> int" where
  "get_active_count db now =
     (if unavailable db then 0
      else int (length (filter (\<lambda>r. col_expires_at r > now) (file_shares db))))"

text \<open>
  \<open>FileShare.get_expired_shares()\<close>: the query also requires a non-empty recipient;
  the objects are built without \<open>downloaded_files\<close>.
\<close>

definition get_expired_shares :: "database \<Rightarrow> datetime \<Rightarrow> FileShare list" where
  "get_expired_shares db now =
     (if unavailable db then []
      else map (\<lambda>r. (share_of_row r)\<lparr>downloaded_files := []\<rparr>)
             (filter (\<lambda>r. col_expires_at r \<le> now \<and> col_recipient_email r \<noteq> [])
                (file_shares db)))"

text \<open>
  \<open>FileShare.save()\<close>: one \<open>UPDATE ... WHERE token = ?\<close>, not guarded by \<open>try\<close>, so
  a database error propagates. Writing \<open>None\<close> into the \<open>NOT NULL\<close> column
  \<open>expires_at\<close> is such an error.
\<close>

definition save :: "database \<Rightarrow> FileShare \<Rightarrow> error + database" where
  "save db s =
     (if unavailable db then Inl StorageError
      else (case expires_at s of
              None \<Rightarrow> Inl StorageError
            | Some e \<Rightarrow>
                Inr (db\<lparr>file_shares :=
                       map (\<lambda>r. if col_token r = token s
                                then r\<lparr>col_files := files s,
                                       col_downloaded := downloaded s,
                                       col_download_count := download_count s,
                                       col_expires_at := e,
                                       col_downloaded_files := downloaded_files s\<rparr>
                                else r)
                           (file_shares db)\<rparr>)))"

text \<open>
  \<open>FileShare.create(recipient_email, files, retention_hours)\<close>. The generated token
  and the clock are parameters. The expiry is computed before the database is opened.
  The \<open>INSERT\<close> is not guarded; a token already in the table violates the \<open>UNIQUE\<close>
  constraint.
\<close>

definition create ::
  "database \<Rightarrow> string \<Rightarrow> datetime \<Rightarrow> string \<Rightarrow> string list \<Rightarrow> int
     \<Rightarrow> error + (FileShare \<times> database)" where
  "create db tok now recipient fs retention_hours =
     (let created = now
      in case expiry created retention_hours of
           Inl e \<Rightarrow> Inl e
         | Inr expires \<Rightarrow>
             if unavailable db then Inl StorageError
             else if tok \<in> col_token ` set (file_shares db) then Inl StorageError
             else Inr (\<lparr>token = tok, recipient_email = Some recipient, files = fs,
                         created_at = created, expires_at = Some expires,
                         downloaded = False, download_count = 0, downloaded_files = []\<rparr>,
                       db\<lparr>file_shares := file_shares db @
                            [\<lparr>col_token = tok, col_recipient_email = recipient,
                              col_files = fs, col_created_at = created,
                              col_expires_at = expires, col_downloaded = False,
                              col_download_count = 0, col_downloaded_files = [],
                              col_last_download_attempt = None,
                              col_last_download_completed = None\<rparr>]\<rparr>))"

text \<open>
  \<open>mark_downloaded()\<close>: the object is changed first; the \<open>UPDATE\<close> is inside
  \<open>try\<close> and its failure is only printed. The method always returns normally.
\<close>

definition mark_downloaded ::
  "datetime \<Rightarrow> FileShare \<times> database \<Rightarrow> FileShare \<times> database" where
  "mark_downloaded now sd =
     (let s = (fst sd)\<lparr>downloaded := True,
                        download_count := download_count (fst sd) + 1\<rparr>;
          db = snd sd
      in if unavailable db then (s, db)
         else (s, db\<lparr>file_shares :=
                      map (\<lambda>r. if col_token r = token s
                               then r\<lparr>col_downloaded := downloaded s,
                                      col_download_count := download_count s,
                                      col_last_download_completed := Some now,
                                      col_downloaded_files := downloaded_files s\<rparr>
                               else r)
                          (file_shares db)\<rparr>))"

text \<open>
  \<open>mark_file_downloaded(filename)\<close>: appends and saves only when the name is not yet
  in the list. The first component is the exception that leaves the method, if any;
  the append has then already happened.
\<close>

definition mark_file_downloaded ::
  "string \<Rightarrow> FileShare \<times> database \<Rightarrow> error option \<times> FileShare \<times> database" where
  "mark_file_downloaded filename sd =
     (let s = fst sd; db = snd sd
      in if filename \<notin> set (downloaded_files s)
         then (let s' = s\<lparr>downloaded_files := downloaded_files s @ [filename]\<rparr>
               in case save db s' of
                    Inl e \<Rightarrow> (Some e, s', db)
                  | Inr db' \<Rightarrow> (None, s', db'))
         else (None, s, db))"

text \<open>\<open>mark_download_attempt()\<close>: the \<open>UPDATE\<close> is inside \<open>try\<close>.\<close>

definition mark_download_attempt ::
  "datetime \<Rightarrow> FileShare \<times> database \<Rightarrow> FileShare \<times> database" where
  "mark_download_attempt now sd =
     (let s = fst sd; db = snd sd
      in if unavailable db then (s, db)
         else (s, db\<lparr>file_shares :=
                      map (\<lambda>r. if col_token r = token s
                               then r\<lparr>col_last_download_attempt := Some now\<rparr>
                               else r)
                          (file_shares db)\<rparr>))"

text \<open>
  \<open>set_recipient(recipient_email, retention_hours)\<close>: the recipient of the object is
  assigned first, then the expiry is computed (and may overflow), then the object's
  expiry is assigned; the \<open>UPDATE\<close> is not guarded.
\<close>

definition set_recipient ::
  "datetime \<Rightarrow> string \<Rightarrow> int \<Rightarrow> FileShare \<times> database
     \<Rightarrow> error option \<times> FileShare \<times> database" where
  "set_recipient now recipient retention_hours sd =
     (let s0 = (fst sd)\<lparr>recipient_email := Some recipient\<rparr>;
          db = snd sd
      in case expiry now retention_hours of
           Inl err \<Rightarrow> (Some err, s0, db)
         | Inr e \<Rightarrow>
             (let s = s0\<lparr>expires_at := Some e\<rparr>
              in if unavailable db then (Some StorageError, s, db)
                 else (None, s,
                       db\<lparr>file_shares :=
                            map (\<lambda>r. if col_token r = token s
                                     then r\<lparr>col_recipient_email := recipient,
                                            col_expires_at := e\<rparr>
                                     else r)
                                (file_shares db)\<rparr>)))"

section \<open>The object store: the upload folder and the staging area\<close>

text \<open>
  The upload folder (\<open>UPLOAD_FOLDER\<close>) holds one entry per name: a plain file or a
  token directory with its files, in the order \<open>os.listdir\<close> reports them; \<open>None\<close>
  when the folder itself does not exist. The staging area is
  \<open>tempfile.gettempdir()/chunked_uploads\<close>, one directory per \<open>fileId\<close>; the upload
  folder (\<open>/app/uploads\<close>, or \<open>uploads\<close> beside the package) lies outside it.
  \<open>rmtree_fails\<close> lists the token directories on which \<open>shutil.rmtree\<close> raises an
  I/O error.

  Entries are addressed by name, so the model describes the program for tokens, file
  ids and file names that are single path components (\<open>plain_name\<close> below). The code
  joins these strings into paths without checking the token or the file id: a name that
  is empty, \<open>.\<close>, \<open>..\<close>, absolute or contains a separator denotes another directory
  on disk (an absolute \<open>fileId\<close> can denote a token directory), which this model does
  not follow. The statements below about saves and chunk uploads are therefore made for
  plain tokens and file ids only. A token directory holds files only, and the staging
  area holds session directories only.
\<close>

datatype node = File bytes | Dir "(string \<times> bytes) list"

record filesystem =
  uploads :: "(string \<times> node) list option"
  chunked_uploads :: "(string \<times> (string \<times> bytes) list) list"
  rmtree_fails :: "string list"

record world =
  fsys :: filesystem
  dbase :: database

text \<open>\<open>os.path.exists\<close> and \<open>os.path.isdir\<close> of \<open>os.path.join(uploads_dir, name)\<close>.\<close>

definition path_exists :: "filesystem \<Rightarrow> string \<Rightarrow> bool" where
  "path_exists fs name =
     (case uploads fs of
        None \<Rightarrow> False
      | Some ents \<Rightarrow> (case map_of ents name of None \<Rightarrow> False | Some _ \<Rightarrow> True))"

definition isdir :: "filesystem \<Rightarrow> string \<Rightarrow> bool" where
  "isdir fs name =
     (case uploads fs of
        None \<Rightarrow> False
      | Some ents \<Rightarrow> (case map_of ents name of Some (Dir _) \<Rightarrow> True | _ \<Rightarrow> False))"

text \<open>
  \<open>shutil.rmtree(os.path.join(uploads_dir, name))\<close>: raises on a missing path, on a
  plain file and on an I/O failure (the directory is then left as it was); otherwise the
  whole subtree is gone.
\<close>

definition rmtree :: "string \<Rightarrow> filesystem \<Rightarrow> error + filesystem" where
  "rmtree name fs =
     (case uploads fs of
        None \<Rightarrow> Inl FileNotFoundError
      | Some ents \<Rightarrow>
          (case map_of ents name of
             None \<Rightarrow> Inl FileNotFoundError
           | Some (File _) \<Rightarrow> Inl NotADirectoryError
           | Some (Dir _) \<Rightarrow>
               if name \<in> set (rmtree_fails fs) then Inl PermissionError
               else Inr (fs\<lparr>uploads := Some (AList.delete name ents)\<rparr>)))"

text \<open>
  The entries of the upload folder (none when it does not exist), and
  \<open>os.makedirs(os.path.join(uploads_dir, name), exist_ok=True)\<close>: creates the upload
  folder and the directory when missing; a plain file of that name is an error.
\<close>

definition upload_entries :: "filesystem \<Rightarrow> (string \<times> node) list" where
  "upload_entries fs = (case uploads fs of None \<Rightarrow> [] | Some es \<Rightarrow> es)"

definition makedirs :: "string \<Rightarrow> filesystem \<Rightarrow> error + filesystem" where
  "makedirs name fs =
     (let ents = upload_entries fs
      in case map_of ents name of
           Some (File _) \<Rightarrow> Inl FileExistsError
         | Some (Dir _) \<Rightarrow> Inr (fs\<lparr>uploads := Some ents\<rparr>)
         | None \<Rightarrow> Inr (fs\<lparr>uploads := Some (ents @ [(name, Dir [])])\<rparr>))"

text \<open>The files of a token directory (empty when there is no such directory).\<close>

definition token_files :: "filesystem \<Rightarrow> string \<Rightarrow> (string \<times> bytes) list" where
  "token_files fs name =
     (case map_of (upload_entries fs) name of Some (Dir d) \<Rightarrow> d | _ \<Rightarrow> [])"

definition set_token_files ::
  "string \<Rightarrow> (string \<times> bytes) list \<Rightarrow> filesystem \<Rightarrow> filesystem" where
  "set_token_files name d fs =
     fs\<lparr>uploads := Some (AList.update name (Dir d) (upload_entries fs))\<rparr>"

section \<open>Deleting a share\<close>

text \<open>
  \<open>FileShare.delete_by_token(token)\<close>: remove the directory when it exists, then delete
  the row; any exception is caught and turns the result into \<open>False\<close>.
\<close>

definition delete_by_token :: "string \<Rightarrow> world \<Rightarrow> bool \<times> world" where
  "delete_by_token tok w =
     (case (if path_exists (fsys w) tok then rmtree tok (fsys w) else Inr (fsys w)) of
        Inl e \<Rightarrow> (False, w)
      | Inr fs' \<Rightarrow>
          if unavailable (dbase w) then (False, w\<lparr>fsys := fs'\<rparr>)
          else (True, w\<lparr>fsys := fs',
                        dbase := (dbase w)\<lparr>file_shares :=
                                   filter (\<lambda>r. col_token r \<noteq> tok) (file_shares (dbase w))\<rparr>\<rparr>))"

section \<open>The eviction sweep\<close>

text \<open>
  \<open>cleanup_expired_files()\<close> of \<open>app/utils/cleanup.py\<close>: the loop over
  \<open>os.listdir(uploads_dir)\<close>, carrying the count and the state. A failing
  \<open>rmtree\<close> is logged and the loop goes on with the next entry.
\<close>

fun sweep :: "datetime \<Rightarrow> string list \<Rightarrow> int \<times> world \<Rightarrow> int \<times> world" where
  "sweep now [] cw = cw"
| "sweep now (token_dir # rest) (cleaned_count, w) =
     (if \<not> isdir (fsys w) token_dir then sweep now rest (cleaned_count, w)
      else
        (case get (dbase w) token_dir of
           Some file_share \<Rightarrow>
             if is_expired now file_share then
               (case rmtree token_dir (fsys w) of
                  Inr fs' \<Rightarrow> sweep now rest (cleaned_count + 1, w\<lparr>fsys := fs'\<rparr>)
                | Inl e \<Rightarrow> sweep now rest (cleaned_count, w))
             else sweep now rest (cleaned_count, w)
         | None \<Rightarrow>
             (case rmtree token_dir (fsys w) of
                Inr fs' \<Rightarrow> sweep now rest (cleaned_count + 1, w\<lparr>fsys := fs'\<rparr>)
              | Inl e \<Rightarrow> sweep now rest (cleaned_count, w))))"

definition cleanup_expired_files :: "datetime \<Rightarrow> world \<Rightarrow> int \<times> world" where
  "cleanup_expired_files now w =
     (case uploads (fsys w) of
        None \<Rightarrow> (0, w)
      | Some ents \<Rightarrow> sweep now (map fst ents) (0, w))"

text \<open>\<open>manual_cleanup()\<close> runs the same sweep.\<close>

definition manual_cleanup :: "datetime \<Rightarrow> world \<Rightarrow> int \<times> world" where
  "manual_cleanup now w = cleanup_expired_files now w"

section \<open>File names\<close>

text \<open>Python's \<open>str\<close> of a natural number: its decimal digits.\<close>

definition digit_char :: "nat \<Rightarrow> char" where
  "digit_char d = char_of (48 + d)"

fun str_nat :: "nat \<Rightarrow> string" where
  "str_nat n = (if n < 10 then [digit_char n] else str_nat (n div 10) @ [digit_char (n mod 10)])"

declare str_nat.simps [simp del]

text \<open>
  The format \<open>{i:05d}\<close>: zero-padded to five characters, the sign included; longer
  numbers are not cut. \<open>chunk_name\<close> is the name \<open>f"chunk_{i:05d}"\<close> of a staged chunk.
\<close>

definition format_05d :: "int \<Rightarrow> string" where
  "format_05d i =
     (if i < 0
      then CHR ''-'' # replicate (4 - length (str_nat (nat (- i)))) CHR ''0'' @ str_nat (nat (- i))
      else replicate (5 - length (str_nat (nat i))) CHR ''0'' @ str_nat (nat i))"

definition chunk_name :: "int \<Rightarrow> string" where
  "chunk_name i = ''chunk_'' @ format_05d i"

text \<open>
  \<open>os.path.splitext\<close> (POSIX): the extension starts at the last dot of the last
  path component, unless only dots precede it there.
\<close>

definition rfind :: "char \<Rightarrow> string \<Rightarrow> int" where
  "rfind c p =
     (if c \<in> set p then int (length p) - 1 - int (length (takeWhile (\<lambda>x. x \<noteq> c) (rev p)))
      else - 1)"

definition splitext :: "string \<Rightarrow> string \<times> string" where
  "splitext p =
     (let sepIndex = rfind CHR ''/'' p;
          dotIndex = rfind CHR ''.'' p
      in if dotIndex > sepIndex
            \<and> list_ex (\<lambda>i. p ! i \<noteq> CHR ''.'') [nat (sepIndex + 1)..<nat dotIndex]
         then (take (nat dotIndex) p, drop (nat dotIndex) p)
         else (p, []))"

text \<open>The name \<open>f"{name}_{counter}{ext}"\<close> tried after a collision.\<close>

definition numbered :: "string \<Rightarrow> nat \<Rightarrow> string" where
  "numbered original counter =
     (case splitext original of (name, ext) \<Rightarrow> name @ ''_'' @ str_nat counter @ ext)"

text \<open>Reading the digits back shows that different counters give different names.\<close>

definition digit_val :: "char \<Rightarrow> nat" where
  "digit_val c = of_char c - 48"

definition nat_str :: "string \<Rightarrow> nat" where
  "nat_str s = foldl (\<lambda>a c. 10 * a + digit_val c) 0 s"

lemma digit_val_digit_char: "d < 10 \<Longrightarrow> digit_val (digit_char d) = d"
  by (simp add: digit_val_def digit_char_def)

lemma nat_str_str_nat: "nat_str (str_nat n) = n"
proof (induction n rule: str_nat.induct)
  case (1 n)
  show ?case
  proof (cases "n < 10")
    case True
    then show ?thesis by (simp add: str_nat.simps [of n] nat_str_def digit_val_digit_char)
  next
    case False
    then have "nat_str (str_nat (n div 10)) = n div 10" using 1 by simp
    then show ?thesis using False
      by (simp add: str_nat.simps [of n] nat_str_def digit_val_digit_char)
  qed
qed

lemma str_nat_inj: "str_nat a = str_nat b \<Longrightarrow> a = b"
  by (metis nat_str_str_nat)

lemma numbered_inj: "numbered original a = numbered original b \<Longrightarrow> a = b"
  by (auto simp: numbered_def split: prod.splits dest: str_nat_inj)

lemma finite_numbered: "finite {k. numbered original k \<in> fst ` set (d :: (string \<times> bytes) list)}"
proof -
  have "inj (numbered original)" by (auto simp: inj_def dest: numbered_inj)
  then have "finite (numbered original -` (fst ` set d))"
    by (intro finite_vimageI) auto
  then show ?thesis by (simp add: vimage_def)
qed

lemma splitext_append: "fst (splitext p) @ snd (splitext p) = p"
  by (simp add: splitext_def Let_def)

text \<open>
  The loop \<open>while os.path.exists(file_path)\<close> of \<open>save_uploaded_files\<close>, with the
  files of the token directory, the sanitized name and the loop variables
  \<open>filename\<close> and \<open>counter\<close>. It ends because a directory holds finitely many names.
\<close>

function unique_filename :: "(string \<times> bytes) list \<Rightarrow> string \<Rightarrow> string \<times> nat \<Rightarrow> string" where
  "unique_filename d original (filename, counter) =
     (if filename \<in> fst ` set d
      then unique_filename d original (numbered original counter, counter + 1)
      else filename)"
  by pat_completeness auto
termination
proof (relation "measure (\<lambda>(d, original, filename, counter).
          card {k. counter \<le> k \<and> numbered original k \<in> fst ` set d}
          + (if filename \<in> fst ` set d then 1 else 0))", goal_cases)
  case 1
  show ?case by simp
next
  case (2 d original filename counter)
  let ?S = "\<lambda>c. {k. c \<le> k \<and> numbered original k \<in> fst ` set d}"
  have fin: "finite (?S c)" for c
    by (rule finite_subset [OF _ finite_numbered [of original d]]) auto
  have split: "?S counter = ?S (counter + 1) \<union> (if numbered original counter \<in> fst ` set d then {counter} else {})"
  proof (cases "numbered original counter \<in> fst ` set d")
    case True
    then show ?thesis by (auto simp: le_Suc_eq Suc_le_eq)
  next
    case False
    then have "k \<noteq> counter" if "numbered original k \<in> fst ` set d" for k
      using that by auto
    then show ?thesis using False by (auto simp: Suc_le_eq order_le_less)
  qed
  have "card (?S counter) = card (?S (counter + 1)) + (if numbered original counter \<in> fst ` set d then 1 else 0)"
    by (subst split, subst card_Un_disjoint) (auto simp: fin)
  then show ?case using 2 by simp
qed

declare unique_filename.simps [simp del]

text \<open>
  \<open>werkzeug.utils.secure_filename\<close> is a library function, so the operations that
  call it take the sanitizer as a parameter. The function below follows the library's
  definition on POSIX for input that is already ASCII: path separators become spaces,
  runs of whitespace become one underscore, every character outside
  \<open>[A-Za-z0-9_.-]\<close> is dropped, and leading and trailing dots and underscores are
  stripped. The library first decomposes non-ASCII characters (NFKD) and keeps their
  ASCII base letters; here a non-ASCII byte is just dropped, so the function stands for
  the library on ASCII input only. It is the sanitizer at which the statements are
  evaluated, always on ASCII names.
\<close>

definition is_ascii :: "char \<Rightarrow> bool" where
  "is_ascii c = ((of_char c :: nat) < 128)"

definition is_space :: "char \<Rightarrow> bool" where
  "is_space c = (c \<in> set [CHR '' '', CHR 0x09, CHR 0x0A, CHR 0x0B, CHR 0x0C, CHR 0x0D,
                           CHR 0x1C, CHR 0x1D, CHR 0x1E, CHR 0x1F])"

definition allowed_char :: "char \<Rightarrow> bool" where
  "allowed_char c =
     (c \<in> set ''ABCDEFGHIJKLMNOPQRSTUVWXYZabcdefghijklmnopqrstuvwxyz0123456789_.-'')"

fun split_words :: "string \<Rightarrow> string \<Rightarrow> string list" where
  "split_words w [] = (if w = [] then [] else [w])"
| "split_words w (c # cs) =
     (if is_space c then (if w = [] then split_words [] cs else w # split_words [] cs)
      else split_words (w @ [c]) cs)"

fun join_with :: "string \<Rightarrow> string list \<Rightarrow> string" where
  "join_with sep [] = []"
| "join_with sep [w] = w"
| "join_with sep (w # ws) = w @ sep @ join_with sep ws"

definition strip_chars :: "string \<Rightarrow> string \<Rightarrow> string" where
  "strip_chars chars s =
     rev (dropWhile (\<lambda>c. c \<in> set chars) (rev (dropWhile (\<lambda>c. c \<in> set chars) s)))"

definition secure_filename :: "string \<Rightarrow> string" where
  "secure_filename filename =
     strip_chars ''._''
       (filter allowed_char
          (join_with ''_''
             (split_words []
                (map (\<lambda>c. if c = CHR ''/'' then CHR '' '' else c) (filter is_ascii filename)))))"

text \<open>
  A name that is a single, real path component: joined to a directory it names a direct
  child of that directory.
\<close>

definition plain_name :: "string \<Rightarrow> bool" where
  "plain_name n = (n \<noteq> [] \<and> CHR ''/'' \<notin> set n \<and> n \<noteq> ''.'' \<and> n \<noteq> ''..'')"

lemma set_strip_chars: "set (strip_chars cs s) \<subseteq> set s"
proof
  fix c
  assume "c \<in> set (strip_chars cs s)"
  then have "c \<in> set (dropWhile (\<lambda>c. c \<in> set cs) (rev (dropWhile (\<lambda>c. c \<in> set cs) s)))"
    by (simp add: strip_chars_def)
  then have "c \<in> set (rev (dropWhile (\<lambda>c. c \<in> set cs) s))"
    by (rule set_dropWhileD)
  then have "c \<in> set (dropWhile (\<lambda>c. c \<in> set cs) s)" by simp
  then show "c \<in> set s" by (rule set_dropWhileD)
qed

lemma last_strip_chars: "strip_chars cs s \<noteq> [] \<Longrightarrow> last (strip_chars cs s) \<notin> set cs"
proof -
  assume ne: "strip_chars cs s \<noteq> []"
  let ?r = "dropWhile (\<lambda>c. c \<in> set cs) (rev (dropWhile (\<lambda>c. c \<in> set cs) s))"
  have r: "?r \<noteq> []" using ne by (simp add: strip_chars_def)
  then have "hd ?r \<notin> set cs" using hd_dropWhile [of "\<lambda>c. c \<in> set cs"] by blast
  moreover have "last (strip_chars cs s) = hd ?r"
    using r by (simp add: strip_chars_def last_rev)
  ultimately show ?thesis by simp
qed

lemma secure_filename_safe: "secure_filename x = [] \<or> plain_name (secure_filename x)"
proof (cases "secure_filename x = []")
  case True
  then show ?thesis by simp
next
  case False
  let ?body = "filter allowed_char (join_with ''_'' (split_words []
                (map (\<lambda>c. if c = CHR ''/'' then CHR '' '' else c) (filter is_ascii x))))"
  have sf: "secure_filename x = strip_chars ''._'' ?body" by (simp add: secure_filename_def)
  have "set (secure_filename x) \<subseteq> set ?body" unfolding sf by (rule set_strip_chars)
  then have "\<forall>c \<in> set (secure_filename x). allowed_char c" by auto
  moreover have "\<not> allowed_char CHR ''/''" by (simp add: allowed_char_def)
  ultimately have slash: "CHR ''/'' \<notin> set (secure_filename x)" by blast
  have "last (secure_filename x) \<notin> set ''._''"
    using False unfolding sf by (rule last_strip_chars)
  then have "secure_filename x \<noteq> ''.''" "secure_filename x \<noteq> ''..''" by auto
  then show ?thesis using False slash by (simp add: plain_name_def)
qed

section \<open>Saving uploaded files\<close>

text \<open>
  \<open>save_uploaded_files(files, token)\<close> of \<open>app/utils/file_utils.py\<close>. An uploaded
  file is its client-side name and its content. The loop over \<open>files\<close> carries
  \<open>saved_files\<close> and the files of the token directory.
\<close>

fun save_files ::
  "(string \<Rightarrow> string) \<Rightarrow> (string \<times> bytes) list
     \<Rightarrow> string list \<times> (string \<times> bytes) list \<Rightarrow> string list \<times> (string \<times> bytes) list" where
  "save_files sf [] sd = sd"
| "save_files sf ((raw, content) # rest) (saved_files, d) =
     (if raw \<noteq> [] then
        (let filename = sf raw
         in if filename \<noteq> [] then
              (let stored = unique_filename d filename (filename, 1)
               in save_files sf rest (saved_files @ [stored], AList.update stored content d))
            else save_files sf rest (saved_files, d))
      else save_files sf rest (saved_files, d))"

definition save_uploaded_files ::
  "(string \<Rightarrow> string) \<Rightarrow> (string \<times> bytes) list \<Rightarrow> string \<Rightarrow> filesystem
     \<Rightarrow> error + (string list \<times> filesystem)" where
  "save_uploaded_files sf fls tok fs =
     (case makedirs tok fs of
        Inl e \<Rightarrow> Inl e
      | Inr fs1 \<Rightarrow>
          (case save_files sf fls ([], token_files fs1 tok) of
             (saved_files, d) \<Rightarrow> Inr (saved_files, set_token_files tok d fs1)))"

section \<open>Chunked upload\<close>

text \<open>
  The responses of \<open>upload_chunk\<close>: \<open>{done: false}\<close> and \<open>{done: true, token}\<close> with
  status 200, \<open>Invalid share token\<close> with status 400, and the caught exception with
  status 500.
\<close>

datatype response =
    Pending
  | Done string
  | Invalid_share_token
  | Server_error error

fun status_code :: "response \<Rightarrow> nat" where
  "status_code Pending = 200"
| "status_code (Done t) = 200"
| "status_code Invalid_share_token = 400"
| "status_code (Server_error e) = 500"

text \<open>
  The staging directory \<open>os.path.join(tempfile.gettempdir(), 'chunked_uploads', file_id)\<close>
  for a \<open>file_id\<close> that is a single path component, and the directory after
  \<open>chunk.save(chunk_path)\<close> has stored (or replaced) the chunk of the given number.
\<close>

definition staging_dir :: "filesystem \<Rightarrow> string \<Rightarrow> (string \<times> bytes) list" where
  "staging_dir fs file_id =
     (case map_of (chunked_uploads fs) file_id of None \<Rightarrow> [] | Some d \<Rightarrow> d)"

definition set_staging_dir ::
  "string \<Rightarrow> (string \<times> bytes) list \<Rightarrow> filesystem \<Rightarrow> filesystem" where
  "set_staging_dir file_id d fs =
     fs\<lparr>chunked_uploads := AList.update file_id d (chunked_uploads fs)\<rparr>"

definition rmdir_staging ::
  "string \<Rightarrow> (string \<times> bytes) list \<Rightarrow> filesystem \<Rightarrow> filesystem" where
  "rmdir_staging file_id d fs =
     (if d = [] then fs\<lparr>chunked_uploads := AList.delete file_id (chunked_uploads fs)\<rparr>
      else set_staging_dir file_id d fs)"

definition persist_chunk ::
  "string \<Rightarrow> int \<Rightarrow> bytes \<Rightarrow> filesystem \<Rightarrow> (string \<times> bytes) list" where
  "persist_chunk file_id chunk_number chunk fs =
     AList.update (chunk_name chunk_number) chunk (staging_dir fs file_id)"

text \<open>
  The assembly: \<open>open(assembled_path, 'wb')\<close> creates or empties the output file, which
  lives in the staging directory under \<open>filename\<close>; the loop
  \<open>for i in range(1, total_chunks + 1)\<close> reads each part and writes it to the output;
  leaving the \<open>with\<close> block closes the output, also when a missing part raises
  \<open>FileNotFoundError\<close>, and the file then holds everything written.

  The output is written through a buffer. While it is open, the file on disk holds only
  what has been flushed: nothing before the first write, afterwards a part of the
  written data that depends on the buffer and on the sizes of the writes. That part is
  the parameter \<open>flushed\<close>, a function of the writes made so far. It is what a read
  returns when \<open>filename\<close> is itself the name of a chunk that the loop reads.
\<close>

definition on_disk :: "(bytes list \<Rightarrow> bytes) \<Rightarrow> bytes list \<Rightarrow> bytes" where
  "on_disk flushed written = (if written = [] then [] else flushed written)"

fun assemble ::
  "(bytes list \<Rightarrow> bytes) \<Rightarrow> string \<Rightarrow> int list \<Rightarrow> bytes list \<Rightarrow> (string \<times> bytes) list
     \<Rightarrow> error option \<times> (string \<times> bytes) list" where
  "assemble flushed filename [] written temp =
     (None, AList.update filename (concat written) temp)"
| "assemble flushed filename (i # rest) written temp =
     (case map_of (AList.update filename (on_disk flushed written) temp) (chunk_name i) of
        None \<Rightarrow> (Some FileNotFoundError, AList.update filename (concat written) temp)
      | Some part \<Rightarrow> assemble flushed filename rest (written @ [part]) temp)"

text \<open>
  A buffer that holds everything back until the file is closed, as happens with writes
  smaller than the buffer; used where a statement is evaluated.
\<close>

definition held_back :: "bytes list \<Rightarrow> bytes" where
  "held_back written = []"

text \<open>
  \<open>upload_chunk()\<close> of \<open>app/web/admin.py\<close>. The form fields \<open>chunkNumber\<close>,
  \<open>totalChunks\<close>, \<open>fileId\<close>, \<open>filename\<close>, \<open>share_token\<close> and the chunk's bytes are the
  parameters, after the sanitizer and the buffer. The steps after the chunk is stored
  happen only when
  \<open>chunk_number == total_chunks\<close>: open the output file (an empty name denotes the
  staging directory itself), assemble, create the share's directory, move the file to
  \<open>final_path\<close> (replacing what is there), record the name, remove the chunks, remove
  the staging directory when it is empty. Every exception ends in the 500 response.
\<close>

definition upload_chunk ::
  "(string \<Rightarrow> string) \<Rightarrow> (bytes list \<Rightarrow> bytes) \<Rightarrow> int \<Rightarrow> int \<Rightarrow> string \<Rightarrow> string \<Rightarrow> string
     \<Rightarrow> bytes \<Rightarrow> world \<Rightarrow> response \<times> world" where
  "upload_chunk sf flushed chunk_number total_chunks file_id raw_filename share_token chunk w =
     (let filename = sf raw_filename
      in case get (dbase w) share_token of
           None \<Rightarrow> (Invalid_share_token, w)
         | Some share \<Rightarrow>
             (let temp1 = persist_chunk file_id chunk_number chunk (fsys w);
                  fs1 = set_staging_dir file_id temp1 (fsys w)
              in if chunk_number = total_chunks then
                   (if filename = [] then (Server_error IsADirectoryError, w\<lparr>fsys := fs1\<rparr>)
                    else
                      (case assemble flushed filename [1..total_chunks] [] temp1 of
                         (Some e, temp2) \<Rightarrow>
                           (Server_error e, w\<lparr>fsys := set_staging_dir file_id temp2 fs1\<rparr>)
                       | (None, temp2) \<Rightarrow>
                           (case makedirs (token share) (set_staging_dir file_id temp2 fs1) of
                              Inl e \<Rightarrow>
                                (Server_error e, w\<lparr>fsys := set_staging_dir file_id temp2 fs1\<rparr>)
                            | Inr fs3 \<Rightarrow>
                                (case map_of temp2 filename of
                                   None \<Rightarrow> (Server_error FileNotFoundError, w\<lparr>fsys := fs3\<rparr>)
                                 | Some blob \<Rightarrow>
                                     (let temp4 = AList.delete filename temp2;
                                          fs4 = set_token_files (token share)
                                                  (AList.update filename blob
                                                     (token_files fs3 (token share)))
                                                  (set_staging_dir file_id temp4 fs3);
                                          share' = (if filename \<notin> set (files share)
                                                    then share\<lparr>files := files share @ [filename]\<rparr>
                                                    else share)
                                      in case save (dbase w) share' of
                                           Inl e \<Rightarrow> (Server_error e, w\<lparr>fsys := fs4\<rparr>)
                                         | Inr db' \<Rightarrow>
                                             (let temp5 = fold AList.delete
                                                            (map chunk_name [1..total_chunks]) temp4
                                              in (Done (token share),
                                                  \<lparr>fsys = rmdir_staging file_id temp5 fs4,
                                                   dbase = db'\<rparr>)))))))
                 else (Pending, w\<lparr>fsys := fs1\<rparr>)))"

section \<open>Example states\<close>

text \<open>Concrete rows and stores at which the statements below are evaluated.\<close>

definition example_row :: "string \<Rightarrow> string \<Rightarrow> string list \<Rightarrow> datetime \<Rightarrow> row" where
  "example_row tok recipient fs expires =
     \<lparr>col_token = tok, col_recipient_email = recipient, col_files = fs,
      col_created_at = 0, col_expires_at = expires, col_downloaded = False,
      col_download_count = 0, col_downloaded_files = [],
      col_last_download_attempt = None, col_last_download_completed = None\<rparr>"

definition sweep_store :: world where
  "sweep_store =
     \<lparr>fsys = \<lparr>uploads = Some [(''tokA'', Dir [(''f.txt'', ''A'')]),
                               (''tokB'', Dir [(''g.txt'', ''B'')]),
                               (''tokC'', Dir []),
                               (''tokD'', Dir [(''h.txt'', ''D'')])],
              chunked_uploads = [], rmtree_fails = []\<rparr>,
      dbase = \<lparr>file_shares = [example_row ''tokA'' ''r@example.org'' [''f.txt''] 3600,
                               example_row ''tokB'' ''r@example.org'' [''g.txt''] 172800,
                               example_row ''tokC'' [] [] 3600],
               unavailable = False\<rparr>\<rparr>"

definition pinned_db :: database where
  "pinned_db = \<lparr>file_shares = [example_row ''tokC'' [] [''c.txt''] 3600], unavailable = False\<rparr>"

definition example_db :: database where
  "example_db =
     \<lparr>file_shares = [example_row ''tok'' ''r@example.org'' [''a.txt''] 3600],
      unavailable = False\<rparr>"

definition broken_db :: database where
  "broken_db =
     \<lparr>file_shares = [example_row ''tok'' ''r@example.org'' [''a.txt''] 3600],
      unavailable = True\<rparr>"

definition upload_store :: world where
  "upload_store =
     \<lparr>fsys = \<lparr>uploads = Some [(''tok'', Dir [(''a.txt'', ''OLD'')])],
              chunked_uploads = [], rmtree_fails = []\<rparr>,
      dbase = \<lparr>file_shares = [example_row ''tok'' ''r@example.org'' [''a.txt''] 3600],
               unavailable = False\<rparr>\<rparr>"

section \<open>Reading a share back\<close>

lemma find_map_token:
  assumes "\<And>r. col_token (g r) = col_token r"
  shows "find (\<lambda>r. col_token r = tok) (map g rs) = map_option g (find (\<lambda>r. col_token r = tok) rs)"
  using assms by (induction rs) auto

lemma get_Some_available: "get db tok = Some s \<Longrightarrow> \<not> unavailable db"
  by (auto simp: get_def split: if_splits)

lemma get_Some_fields:
  "get db tok = Some s \<Longrightarrow> \<exists>r. find (\<lambda>r. col_token r = tok) (file_shares db) = Some r \<and> s = share_of_row r"
  by (auto simp: get_def split: if_splits option.splits)

lemma get_Some_token: "get db tok = Some s \<Longrightarrow> token s = tok"
  by (auto simp: share_of_row_def find_Some_iff dest!: get_Some_fields)

lemma filter_other_tokens:
  "tok \<notin> col_token ` set rs \<Longrightarrow> filter (\<lambda>r. col_token r \<noteq> tok) rs = rs"
  by (induction rs) auto

section \<open>Expiration\<close>

text \<open>
  C2. A share whose recipient is empty (unset or the empty string) is never reported as
  expired: \<open>is_expired\<close> is false at every instant and for every stored \<open>expires_at\<close>.
\<close>

theorem is_expired_without_recipient:
  "recipient_email s = None \<or> recipient_email s = Some [] \<Longrightarrow> is_expired now s = False"
  by (simp add: is_expired_def)

theorem is_expired_without_recipient_witness:
  "(recipient_email \<lparr>token = ''tok'', recipient_email = Some [], files = [''a.txt''],
       created_at = 0, expires_at = Some 86400, downloaded = False, download_count = 0,
       downloaded_files = []\<rparr> = None
    \<or> recipient_email \<lparr>token = ''tok'', recipient_email = Some [], files = [''a.txt''],
       created_at = 0, expires_at = Some 86400, downloaded = False, download_count = 0,
       downloaded_files = []\<rparr> = Some [])
   \<and> is_expired 1000000 \<lparr>token = ''tok'', recipient_email = Some [], files = [''a.txt''],
       created_at = 0, expires_at = Some 86400, downloaded = False, download_count = 0,
       downloaded_files = []\<rparr> = False"
proof -
  let ?s = "\<lparr>token = ''tok'', recipient_email = Some [], files = [''a.txt''],
       created_at = 0, expires_at = Some 86400, downloaded = False, download_count = 0,
       downloaded_files = []\<rparr>"
  have h: "recipient_email ?s = None \<or> recipient_email ?s = Some []" by simp
  from h is_expired_without_recipient [OF h, of 1000000] show ?thesis by blast
qed


text \<open>
  The rows selected as active, and where the selection agrees with \<open>is_expired\<close>:
  on rows with a recipient whose \<open>expires_at\<close> is not the current instant.
\<close>

lemma active_row_iff_not_expired:
  assumes "col_recipient_email r \<noteq> []" and "col_expires_at r \<noteq> now"
  shows "col_expires_at r > now \<longleftrightarrow> \<not> is_expired now (share_of_row r)"
  using assms by (auto simp: is_expired_def share_of_row_def)

lemma set_get_all_active:
  "\<not> unavailable db \<Longrightarrow>
     set (get_all_active db now) = share_of_row ` {r \<in> set (file_shares db). col_expires_at r > now}"
  by (auto simp: get_all_active_def order_by_created_at_desc_def)

text \<open>
  C3. The active projections \<open>get_all_active\<close> and \<open>get_active_count\<close> select by
  \<open>expires_at\<close> alone. At a store holding one share with an empty recipient whose
  \<open>expires_at\<close> lies in the past, the share is not expired under \<open>is_expired\<close>, yet it
  is missing from the active list and the active count is 0.
\<close>

theorem active_projections_drop_pinned_share:
  "get pinned_db ''tokC'' = Some (share_of_row (example_row ''tokC'' [] [''c.txt''] 3600))
   \<and> \<not> is_expired 86400 (share_of_row (example_row ''tokC'' [] [''c.txt''] 3600))
   \<and> get_all_active pinned_db 86400 = []
   \<and> get_active_count pinned_db 86400 = 0"
  by (simp add: pinned_db_def example_row_def get_def is_expired_def share_of_row_def
      get_all_active_def get_active_count_def order_by_created_at_desc_def)


section \<open>Download tracking\<close>

lemma get_after_update:
  assumes "get db tok = Some s" and "\<And>r. col_token (g r) = col_token r"
    and "\<And>r. share_of_row r = s \<Longrightarrow> share_of_row (g r) = s'"
  shows "get (db\<lparr>file_shares := map g (file_shares db)\<rparr>) tok = Some s'"
  using assms
  by (auto simp: get_def find_map_token split: if_splits option.splits)

lemma mark_file_downloaded_object:
  assumes "count_list (downloaded_files s) f \<le> 1"
  shows "count_list (downloaded_files (fst (snd (mark_file_downloaded f (s, db))))) f = 1"
    and "download_count (fst (snd (mark_file_downloaded f (s, db)))) = download_count s"
    and "mark_file_downloaded f (snd (mark_file_downloaded f (s, db)))
           = (None, snd (mark_file_downloaded f (s, db)))"
proof -
  have "f \<in> set (downloaded_files s) \<Longrightarrow> count_list (downloaded_files s) f = 1"
    using assms count_list_0_iff [of "downloaded_files s" f] by linarith
  moreover have "f \<notin> set (downloaded_files s) \<Longrightarrow> count_list (downloaded_files s) f = 0"
    by (simp add: count_list_0_iff)
  ultimately show "count_list (downloaded_files (fst (snd (mark_file_downloaded f (s, db))))) f = 1"
    by (auto simp: mark_file_downloaded_def Let_def split: sum.splits)
  show "download_count (fst (snd (mark_file_downloaded f (s, db)))) = download_count s"
    by (auto simp: mark_file_downloaded_def Let_def split: sum.splits)
  show "mark_file_downloaded f (snd (mark_file_downloaded f (s, db)))
           = (None, snd (mark_file_downloaded f (s, db)))"
    by (auto simp: mark_file_downloaded_def Let_def split: sum.splits)
qed

lemma mark_file_downloaded_stored:
  assumes "get db tok = Some s"
  shows "fst (mark_file_downloaded f (s, db)) = None"
    and "get (snd (snd (mark_file_downloaded f (s, db)))) tok
           = Some (fst (snd (mark_file_downloaded f (s, db))))"
proof -
  obtain r where r: "find (\<lambda>r. col_token r = tok) (file_shares db) = Some r" "s = share_of_row r"
    using get_Some_fields [OF assms] by blast
  have av: "\<not> unavailable db" using assms by (rule get_Some_available)
  have tk: "token s = tok" using assms by (rule get_Some_token)
  have ex: "expires_at s = Some (col_expires_at r)" using r by (simp add: share_of_row_def)
  show "fst (mark_file_downloaded f (s, db)) = None"
    using av ex by (simp add: mark_file_downloaded_def save_def Let_def)
  show "get (snd (snd (mark_file_downloaded f (s, db)))) tok
           = Some (fst (snd (mark_file_downloaded f (s, db))))"
  proof (cases "f \<in> set (downloaded_files s)")
    case True
    then show ?thesis using assms by (simp add: mark_file_downloaded_def Let_def)
  next
    case False
    then show ?thesis
      using av ex tk
      by (simp add: mark_file_downloaded_def save_def Let_def)
         (rule get_after_update [OF assms], auto simp: share_of_row_def r)
  qed
qed

lemma mark_downloaded_stored:
  assumes "get db tok = Some s"
  shows "get (snd (mark_downloaded now (s, db))) tok = Some (fst (mark_downloaded now (s, db)))"
    and "map_option col_last_download_completed
           (find (\<lambda>r. col_token r = tok) (file_shares (snd (mark_downloaded now (s, db)))))
         = Some (Some now)"
proof -
  obtain r where r: "find (\<lambda>r. col_token r = tok) (file_shares db) = Some r" "s = share_of_row r"
    using get_Some_fields [OF assms] by blast
  have av: "\<not> unavailable db" using assms by (rule get_Some_available)
  have tk: "token s = tok" using assms by (rule get_Some_token)
  have tr: "col_token r = tok" using r(1) by (auto simp: find_Some_iff)
  show "get (snd (mark_downloaded now (s, db))) tok = Some (fst (mark_downloaded now (s, db)))"
    using av tk
    by (simp add: mark_downloaded_def Let_def)
       (rule get_after_update [OF assms], auto simp: share_of_row_def r)
  show "map_option col_last_download_completed
           (find (\<lambda>r. col_token r = tok) (file_shares (snd (mark_downloaded now (s, db)))))
         = Some (Some now)"
    using av tk tr r(1)
    by (simp add: mark_downloaded_def Let_def find_map_token)
qed


text \<open>
  C8. \<open>mark_file_downloaded\<close> is idempotent: for a share whose downloaded list holds the
  name at most once, the list holds it exactly once after the first call, a second call
  with the same name returns normally and changes neither the object nor the database,
  and \<open>download_count\<close> stays as it was. \<open>mark_download_attempt\<close> and \<open>set_recipient\<close>
  leave \<open>download_count\<close> alone as well; \<open>mark_downloaded\<close> adds one to it. For a share
  read from the database, both marks are stored (reading the share back gives the updated
  object) and \<open>mark_downloaded\<close> sets \<open>last_download_completed\<close> to the current time.
\<close>

theorem mark_file_downloaded_idempotent:
  assumes "count_list (downloaded_files s) f \<le> 1"
  shows "count_list (downloaded_files (fst (snd (mark_file_downloaded f (s, db))))) f = 1
    \<and> mark_file_downloaded f (snd (mark_file_downloaded f (s, db)))
         = (None, snd (mark_file_downloaded f (s, db)))
    \<and> download_count (fst (snd (mark_file_downloaded f (s, db)))) = download_count s
    \<and> download_count (fst (mark_download_attempt now (s, db))) = download_count s
    \<and> download_count (fst (snd (set_recipient now recipient hours (s, db)))) = download_count s
    \<and> download_count (fst (mark_downloaded now (s, db))) = download_count s + 1
    \<and> (get db tok = Some s \<longrightarrow>
          fst (mark_file_downloaded f (s, db)) = None
        \<and> get (snd (snd (mark_file_downloaded f (s, db)))) tok
            = Some (fst (snd (mark_file_downloaded f (s, db))))
        \<and> get (snd (mark_downloaded now (s, db))) tok = Some (fst (mark_downloaded now (s, db)))
        \<and> map_option col_last_download_completed
            (find (\<lambda>r. col_token r = tok) (file_shares (snd (mark_downloaded now (s, db)))))
           = Some (Some now))"
proof -
  have a: "download_count (fst (mark_download_attempt now (s, db))) = download_count s"
    by (simp add: mark_download_attempt_def Let_def)
  have b: "download_count (fst (snd (set_recipient now recipient hours (s, db)))) = download_count s"
    by (simp add: set_recipient_def Let_def split: sum.splits)
  have c: "download_count (fst (mark_downloaded now (s, db))) = download_count s + 1"
    by (simp add: mark_downloaded_def Let_def)
  show ?thesis
    using mark_file_downloaded_object [OF assms, of db] a b c
      mark_file_downloaded_stored [of db tok s f] mark_downloaded_stored [of db tok s now]
    by blast
qed

theorem mark_file_downloaded_idempotent_witness:
  "count_list (downloaded_files (share_of_row (example_row ''tok'' ''r@example.org'' [''a.txt''] 3600)))
      ''a.txt'' \<le> 1
   \<and> get example_db ''tok'' = Some (share_of_row (example_row ''tok'' ''r@example.org'' [''a.txt''] 3600))
   \<and> mark_file_downloaded ''a.txt''
        (snd (mark_file_downloaded ''a.txt''
           (share_of_row (example_row ''tok'' ''r@example.org'' [''a.txt''] 3600), example_db)))
      = (None, snd (mark_file_downloaded ''a.txt''
           (share_of_row (example_row ''tok'' ''r@example.org'' [''a.txt''] 3600), example_db)))
   \<and> downloaded_files (fst (snd (mark_file_downloaded ''a.txt''
           (share_of_row (example_row ''tok'' ''r@example.org'' [''a.txt''] 3600), example_db))))
      = [''a.txt'']
   \<and> download_count (fst (mark_downloaded 7200
           (share_of_row (example_row ''tok'' ''r@example.org'' [''a.txt''] 3600), example_db))) = 1
   \<and> map_option col_last_download_completed
        (find (\<lambda>r. col_token r = ''tok'')
           (file_shares (snd (mark_downloaded 7200
              (share_of_row (example_row ''tok'' ''r@example.org'' [''a.txt''] 3600), example_db)))))
      = Some (Some 7200)"
proof -
  let ?s = "share_of_row (example_row ''tok'' ''r@example.org'' [''a.txt''] 3600)"
  have h: "count_list (downloaded_files ?s) ''a.txt'' \<le> 1"
    by (simp add: share_of_row_def example_row_def)
  have g: "get example_db ''tok'' = Some ?s"
    by (simp add: get_def example_db_def example_row_def)
  have d: "downloaded_files (fst (snd (mark_file_downloaded ''a.txt'' (?s, example_db)))) = [''a.txt'']"
    by (simp add: mark_file_downloaded_def Let_def share_of_row_def example_row_def save_def
        example_db_def)
  have c: "download_count ?s = 0"
    by (simp add: share_of_row_def example_row_def)
  from mark_file_downloaded_idempotent [OF h, of example_db 7200 "''r''" 1 "''tok''"] g h d c
  show ?thesis by simp
qed

section \<open>Persistence errors\<close>

text \<open>
  C9, as stated, fails: a \<open>get\<close> that hits a storage error returns \<open>None\<close>, the very
  value returned for a token that does not exist.
\<close>

theorem get_storage_error_counterexample:
  "get \<lparr>file_shares = [example_row ''tok'' ''r@example.org'' [] 3600], unavailable = True\<rparr> ''tok''
     = get \<lparr>file_shares = [], unavailable = False\<rparr> ''tok''"
  by (simp add: get_def)

text \<open>
  The paginated listing does not absorb a database error either way: the handler's own
  \<open>Pagination(...)\<close> raises \<open>UnboundLocalError\<close>.
\<close>

lemma get_all_paginated_unavailable:
  "unavailable db \<Longrightarrow> get_all_paginated db pg per = Inl UnboundLocalError"
  by (simp add: get_all_paginated_def)

text \<open>
  C9, amended. When the database is failing:
  \<^item> \<open>get\<close> returns \<open>None\<close>; the active list (\<open>get_all_active\<close>) and the expired list
    (\<open>get_expired_shares\<close>) are empty; the active count and the total count are 0;
    \<open>mark_downloaded\<close> and \<open>mark_download_attempt\<close> return normally with the database
    unchanged (\<open>mark_downloaded\<close> having changed the object). These absorb the error.
  \<^item> \<open>save\<close> raises the error to its caller; so do \<open>create\<close> and \<open>set_recipient\<close> when
    the expiry date can be computed (when it cannot, both raise \<open>OverflowError\<close> before
    the database is used), \<open>set_recipient\<close> having already changed the object; so does
    \<open>mark_file_downloaded\<close> for a name that is not yet in the downloaded list, the name
    having been appended to the object's list. For a name already in the list
    \<open>mark_file_downloaded\<close> does not use the database and returns normally.
  The paginated listing \<open>get_all_paginated\<close> is not part of this statement.
\<close>

theorem storage_errors:
  assumes "unavailable db"
  shows "get db tok = None
    \<and> get_all_active db now = []
    \<and> get_expired_shares db now = []
    \<and> get_active_count db now = 0
    \<and> get_total_count db = 0
    \<and> mark_downloaded now (s, db)
        = (s\<lparr>downloaded := True, download_count := download_count s + 1\<rparr>, db)
    \<and> mark_download_attempt now (s, db) = (s, db)
    \<and> save db s = Inl StorageError
    \<and> (expiry now hours = Inr e \<longrightarrow>
          create db tok now recipient fs hours = Inl StorageError
        \<and> set_recipient now recipient hours (s, db)
            = (Some StorageError, s\<lparr>recipient_email := Some recipient, expires_at := Some e\<rparr>, db))
    \<and> (expiry now hours = Inl err \<longrightarrow>
          create db tok now recipient fs hours = Inl err
        \<and> set_recipient now recipient hours (s, db)
            = (Some err, s\<lparr>recipient_email := Some recipient\<rparr>, db))
    \<and> (f \<notin> set (downloaded_files s) \<longrightarrow>
          mark_file_downloaded f (s, db)
            = (Some StorageError, s\<lparr>downloaded_files := downloaded_files s @ [f]\<rparr>, db))
    \<and> (f \<in> set (downloaded_files s) \<longrightarrow> mark_file_downloaded f (s, db) = (None, s, db))"
proof -
  have reads: "get db tok = None" "get_all_active db now = []" "get_expired_shares db now = []"
    "get_active_count db now = 0" "get_total_count db = 0"
    using assms
    by (simp_all add: get_def get_all_active_def get_expired_shares_def get_active_count_def
        get_total_count_def)
  have marks: "mark_downloaded now (s, db)
        = (s\<lparr>downloaded := True, download_count := download_count s + 1\<rparr>, db)"
    "mark_download_attempt now (s, db) = (s, db)"
    using assms by (simp_all add: mark_downloaded_def mark_download_attempt_def Let_def)
  have sv: "save db x = Inl StorageError" for x
    using assms by (simp add: save_def)
  have ok: "expiry now hours = Inr e \<longrightarrow>
          create db tok now recipient fs hours = Inl StorageError
        \<and> set_recipient now recipient hours (s, db)
            = (Some StorageError, s\<lparr>recipient_email := Some recipient, expires_at := Some e\<rparr>, db)"
    using assms by (simp add: create_def set_recipient_def Let_def)
  have ovf: "expiry now hours = Inl err \<longrightarrow>
          create db tok now recipient fs hours = Inl err
        \<and> set_recipient now recipient hours (s, db)
            = (Some err, s\<lparr>recipient_email := Some recipient\<rparr>, db)"
    by (simp add: create_def set_recipient_def Let_def)
  have mfd: "f \<notin> set (downloaded_files s) \<longrightarrow>
          mark_file_downloaded f (s, db)
            = (Some StorageError, s\<lparr>downloaded_files := downloaded_files s @ [f]\<rparr>, db)"
    "f \<in> set (downloaded_files s) \<longrightarrow> mark_file_downloaded f (s, db) = (None, s, db)"
    using sv by (simp_all add: mark_file_downloaded_def Let_def)
  show ?thesis using reads marks sv ok ovf mfd by blast
qed

theorem storage_errors_witness:
  "unavailable broken_db
   \<and> get broken_db ''tok'' = None
   \<and> get_all_active broken_db 0 = []
   \<and> get_active_count broken_db 0 = 0
   \<and> snd (mark_downloaded 0 (share_of_row (example_row ''tok'' ''r@example.org'' [''a.txt''] 3600),
        broken_db)) = broken_db
   \<and> save broken_db (share_of_row (example_row ''tok'' ''r@example.org'' [''a.txt''] 3600))
       = Inl StorageError
   \<and> expiry 0 24 = Inr 86400
   \<and> create broken_db ''new'' 0 ''r@example.org'' [] 24 = Inl StorageError
   \<and> expiry 0 24000000000 = Inl OverflowError
   \<and> create broken_db ''new'' 0 ''r@example.org'' [] 24000000000 = Inl OverflowError
   \<and> ''a.txt'' \<notin> set (downloaded_files
         (share_of_row (example_row ''tok'' ''r@example.org'' [''a.txt''] 3600)))
   \<and> fst (mark_file_downloaded ''a.txt''
         (share_of_row (example_row ''tok'' ''r@example.org'' [''a.txt''] 3600), broken_db))
       = Some StorageError
   \<and> ''a.txt'' \<in> set (downloaded_files
         ((share_of_row (example_row ''tok'' ''r@example.org'' [''a.txt''] 3600))
            \<lparr>downloaded_files := [''a.txt'']\<rparr>))
   \<and> fst (mark_file_downloaded ''a.txt''
         ((share_of_row (example_row ''tok'' ''r@example.org'' [''a.txt''] 3600))
            \<lparr>downloaded_files := [''a.txt'']\<rparr>, broken_db))
       = None"
proof -
  let ?s = "share_of_row (example_row ''tok'' ''r@example.org'' [''a.txt''] 3600)"
  have h: "unavailable broken_db" by (simp add: broken_db_def)
  have e: "expiry 0 24 = Inr 86400"
    by (simp add: expiry_def timedelta_hours_def datetime_add_def datetime_min_def
        datetime_max_def)
  have o: "expiry 0 24000000000 = Inl OverflowError"
    by (simp add: expiry_def timedelta_hours_def)
  have n: "''a.txt'' \<notin> set (downloaded_files ?s)"
    by (simp add: share_of_row_def example_row_def)
  have m: "''a.txt'' \<in> set (downloaded_files (?s\<lparr>downloaded_files := [''a.txt'']\<rparr>))"
    by simp
  note A = storage_errors [OF h, where tok = "''tok''" and now = 0 and s = ?s and hours = 24
      and e = 86400 and f = "''a.txt''"]
  note B = storage_errors [OF h, where tok = "''new''" and now = 0 and hours = 24
      and e = 86400 and recipient = "''r@example.org''" and fs = "[]"]
  note C = storage_errors [OF h, where tok = "''new''" and now = 0 and hours = 24000000000
      and err = OverflowError and recipient = "''r@example.org''" and fs = "[]"]
  note D = storage_errors [OF h, where now = 0 and s = "?s\<lparr>downloaded_files := [''a.txt'']\<rparr>"
      and f = "''a.txt''"]
  have r1: "get broken_db ''tok'' = None" "get_all_active broken_db 0 = []"
    "get_active_count broken_db 0 = 0" "snd (mark_downloaded 0 (?s, broken_db)) = broken_db"
    "save broken_db ?s = Inl StorageError"
    using A by simp_all
  have r2: "create broken_db ''new'' 0 ''r@example.org'' [] 24 = Inl StorageError"
    using B e by blast
  have r3: "create broken_db ''new'' 0 ''r@example.org'' [] 24000000000 = Inl OverflowError"
    using C o by blast
  have r4: "fst (mark_file_downloaded ''a.txt'' (?s, broken_db)) = Some StorageError"
    using A n by simp
  have r5: "fst (mark_file_downloaded ''a.txt'' (?s\<lparr>downloaded_files := [''a.txt'']\<rparr>, broken_db))
       = None"
    using D m by simp
  show ?thesis using h r1 e r2 o r3 n r4 m r5 by blast
qed

section \<open>Deleting by token\<close>

lemma delete_by_token_absent:
  assumes "\<not> unavailable (dbase w)" "\<not> path_exists (fsys w) tok"
    "tok \<notin> col_token ` set (file_shares (dbase w))"
  shows "delete_by_token tok w = (True, w)"
  using assms by (simp add: delete_by_token_def filter_other_tokens)

lemma delete_by_token_False_iff:
  "fst (delete_by_token tok w) = False \<longleftrightarrow>
     (path_exists (fsys w) tok \<and> isl (rmtree tok (fsys w))) \<or> unavailable (dbase w)"
  by (auto simp: delete_by_token_def split: sum.splits)

lemma path_exists_rmtree:
  "rmtree tok fs = Inr fs' \<Longrightarrow> \<not> path_exists fs' tok"
  by (auto simp: rmtree_def path_exists_def AList.delete_conv' split: option.splits node.splits if_splits)

lemma delete_by_token_twice:
  assumes "fst (delete_by_token tok w) = True"
  shows "delete_by_token tok (snd (delete_by_token tok w)) = (True, snd (delete_by_token tok w))"
proof -
  obtain w' where w': "delete_by_token tok w = (True, w')"
    using assms by (cases "delete_by_token tok w") auto
  have "\<not> unavailable (dbase w')" "\<not> path_exists (fsys w') tok"
       "tok \<notin> col_token ` set (file_shares (dbase w'))"
    using w' by (auto simp: delete_by_token_def path_exists_rmtree split: sum.splits if_splits)
  then show ?thesis using w' by (simp add: delete_by_token_absent)
qed


text \<open>
  C10. Deleting a token that has neither a registry record nor a directory reports
  success and leaves the registry and the store as they were (the database being
  reachable). The result is \<open>False\<close> exactly when the removal of an existing path raises
  or the database raises. Deleting again after a successful delete reports success and
  changes nothing.
\<close>

theorem delete_by_token_missing_is_success:
  "(\<not> unavailable (dbase w) \<and> \<not> path_exists (fsys w) tok
      \<and> tok \<notin> col_token ` set (file_shares (dbase w))
      \<longrightarrow> delete_by_token tok w = (True, w))
   \<and> (fst (delete_by_token tok w) = False \<longleftrightarrow>
        (path_exists (fsys w) tok \<and> isl (rmtree tok (fsys w))) \<or> unavailable (dbase w))
   \<and> (fst (delete_by_token tok w) = True \<longrightarrow>
        delete_by_token tok (snd (delete_by_token tok w)) = (True, snd (delete_by_token tok w)))"
  using delete_by_token_absent [of w tok] delete_by_token_False_iff [of tok w]
    delete_by_token_twice [of tok w]
  by blast

theorem delete_by_token_missing_is_success_witness:
  "\<not> unavailable (dbase sweep_store) \<and> \<not> path_exists (fsys sweep_store) ''never''
   \<and> ''never'' \<notin> col_token ` set (file_shares (dbase sweep_store))
   \<and> delete_by_token ''never'' sweep_store = (True, sweep_store)
   \<and> fst (delete_by_token ''tokA'' sweep_store) = True
   \<and> delete_by_token ''tokA'' (snd (delete_by_token ''tokA'' sweep_store))
       = (True, snd (delete_by_token ''tokA'' sweep_store))"
proof -
  have h: "\<not> unavailable (dbase sweep_store)" "\<not> path_exists (fsys sweep_store) ''never''"
    "''never'' \<notin> col_token ` set (file_shares (dbase sweep_store))"
    by (simp_all add: sweep_store_def path_exists_def example_row_def)
  have t: "fst (delete_by_token ''tokA'' sweep_store) = True"
    by (simp add: delete_by_token_def sweep_store_def path_exists_def rmtree_def)
  from delete_by_token_missing_is_success [of sweep_store "''never''"]
    delete_by_token_missing_is_success [of sweep_store "''tokA''"] h t
  show ?thesis by blast
qed

section \<open>The sweep and the registry\<close>

lemma sweep_dbase: "dbase (snd (sweep now names cw)) = dbase (snd cw)"
  by (induction now names cw rule: sweep.induct) (auto split: option.splits sum.splits)


text \<open>
  What the sweep does to the directories when no removal fails: a directory is still
  there afterwards exactly when its token has a record that is not expired. Orphaned
  directories and the directories of expired shares are gone; the database is the one
  the sweep started with.
\<close>

lemma rmtree_directory:
  assumes "isdir fs name" and "name \<notin> set (rmtree_fails fs)"
  shows "\<exists>fs'. rmtree name fs = Inr fs' \<and> rmtree_fails fs' = rmtree_fails fs
           \<and> (\<forall>t. isdir fs' t \<longleftrightarrow> isdir fs t \<and> t \<noteq> name)"
  using assms
  by (auto simp: rmtree_def isdir_def delete_conv' split: option.splits node.splits)

lemma sweep_directories:
  assumes "rmtree_fails (fsys w) = []"
  shows "isdir (fsys (snd (sweep now names (c, w)))) t \<longleftrightarrow>
           isdir (fsys w) t
           \<and> (t \<in> set names \<longrightarrow> (\<exists>s. get (dbase w) t = Some s \<and> \<not> is_expired now s))"
  using assms
proof (induction names arbitrary: c w)
  case Nil
  then show ?case by simp
next
  case (Cons token_dir rest)
  let ?keep = "\<exists>s. get (dbase w) token_dir = Some s \<and> \<not> is_expired now s"
  show ?case
  proof (cases "isdir (fsys w) token_dir \<and> \<not> ?keep")
    case True
    then obtain fs' where fs': "rmtree token_dir (fsys w) = Inr fs'"
      "rmtree_fails fs' = []" "\<And>u. isdir fs' u \<longleftrightarrow> isdir (fsys w) u \<and> u \<noteq> token_dir"
      using rmtree_directory [of "fsys w" token_dir] Cons.prems by auto
    have step: "sweep now (token_dir # rest) (c, w) = sweep now rest (c + 1, w\<lparr>fsys := fs'\<rparr>)"
      using True fs'(1) by (auto split: option.splits)
    have "rmtree_fails (fsys (w\<lparr>fsys := fs'\<rparr>)) = []" using fs'(2) by simp
    from Cons.IH [OF this, of "c + 1"] show ?thesis
      unfolding step using fs'(3) True by auto
  next
    case False
    then have step: "sweep now (token_dir # rest) (c, w) = sweep now rest (c, w)"
      by (auto split: option.splits)
    from Cons.IH [OF Cons.prems, of c] show ?thesis
      unfolding step using False by auto
  qed
qed

lemma cleanup_expired_files_directories:
  assumes "rmtree_fails (fsys w) = []"
  shows "isdir (fsys (snd (cleanup_expired_files now w))) t \<longleftrightarrow>
           isdir (fsys w) t \<and> (\<exists>s. get (dbase w) t = Some s \<and> \<not> is_expired now s)"
proof (cases "uploads (fsys w)")
  case None
  then show ?thesis by (simp add: cleanup_expired_files_def isdir_def)
next
  case (Some ents)
  have "isdir (fsys w) t \<Longrightarrow> t \<in> set (map fst ents)"
    using Some by (auto simp: isdir_def split: option.splits node.splits dest: map_of_SomeD
        intro: rev_image_eqI)
  then show ?thesis
    using sweep_directories [OF assms, of now "map fst ents" 0 t] Some
    by (auto simp: cleanup_expired_files_def)
qed

text \<open>
  C1. The sweep is run on a store holding (a) an expired share with a recipient,
  (b) a share that has not expired, (c) a pending share with no recipient and no files,
  and (d) a directory without a registry record. It removes the directories of (a) and
  (d) and counts 2, but the registry record of (a) is still there afterwards: the sweep
  never deletes a record.
\<close>

theorem sweep_keeps_expired_record:
  "cleanup_expired_files 86400 sweep_store =
     (2, sweep_store\<lparr>fsys := (fsys sweep_store)\<lparr>uploads :=
            Some [(''tokB'', Dir [(''g.txt'', ''B'')]), (''tokC'', Dir [])]\<rparr>\<rparr>)
   \<and> get (dbase (snd (cleanup_expired_files 86400 sweep_store))) ''tokA''
       = Some (share_of_row (example_row ''tokA'' ''r@example.org'' [''f.txt''] 3600))
   \<and> is_expired 86400 (share_of_row (example_row ''tokA'' ''r@example.org'' [''f.txt''] 3600))"
  by (simp add: cleanup_expired_files_def sweep_store_def example_row_def isdir_def get_def
      is_expired_def share_of_row_def rmtree_def)


section \<open>Chunked upload: when assembly happens\<close>

lemma upload_chunk_pending:
  assumes "get (dbase w) tk = Some share" and "chunk_number \<noteq> total_chunks"
  shows "upload_chunk sf flushed chunk_number total_chunks file_id raw tk chunk w =
           (Pending, w\<lparr>fsys := set_staging_dir file_id
               (persist_chunk file_id chunk_number chunk (fsys w)) (fsys w)\<rparr>)"
  using assms by (simp add: upload_chunk_def Let_def)

lemma upload_chunk_empty_name:
  assumes "get (dbase w) tk = Some share" and "sf raw = []"
  shows "upload_chunk sf flushed n n file_id raw tk chunk w =
           (Server_error IsADirectoryError, w\<lparr>fsys := set_staging_dir file_id
               (persist_chunk file_id n chunk (fsys w)) (fsys w)\<rparr>)"
  using assms by (simp add: upload_chunk_def Let_def)

lemma staging_dir_set_staging_dir [simp]:
  "staging_dir (set_staging_dir file_id d fs) file_id = d"
  by (simp add: staging_dir_def set_staging_dir_def update_conv')

lemma uploads_set_staging_dir [simp]:
  "uploads (set_staging_dir file_id d fs) = uploads fs"
  by (simp add: set_staging_dir_def)

lemma upload_entries_set_staging_dir [simp]:
  "upload_entries (set_staging_dir file_id d fs) = upload_entries fs"
  by (simp add: upload_entries_def)

lemma upload_entries_rmdir_staging [simp]:
  "upload_entries (rmdir_staging file_id d fs) = upload_entries fs"
  by (simp add: upload_entries_def rmdir_staging_def)

lemma token_files_set_staging_dir [simp]:
  "token_files (set_staging_dir file_id d fs) t = token_files fs t"
  by (simp add: token_files_def)

lemma token_files_rmdir_staging [simp]:
  "token_files (rmdir_staging file_id d fs) t = token_files fs t"
  by (simp add: token_files_def)

lemma upload_entries_set_token_files [simp]:
  "upload_entries (set_token_files t d fs) = AList.update t (Dir d) (upload_entries fs)"
  by (simp add: set_token_files_def upload_entries_def)

lemma token_files_set_token_files [simp]:
  "token_files (set_token_files t d fs) t = d"
  by (simp add: token_files_def update_conv')

lemma makedirs_Inr:
  assumes "makedirs t fs = Inr fs'"
  shows "token_files fs' t = token_files fs t"
    and "u \<noteq> t \<Longrightarrow> map_of (upload_entries fs') u = map_of (upload_entries fs) u"
    and "chunked_uploads fs' = chunked_uploads fs"
    and "isdir fs' t"
  using assms
  by (auto simp: makedirs_def Let_def token_files_def upload_entries_def isdir_def map_add_def
      split: option.splits node.splits)

lemma makedirs_succeeds:
  "\<not> (path_exists fs t \<and> \<not> isdir fs t) \<Longrightarrow> \<exists>fs'. makedirs t fs = Inr fs'"
  by (auto simp: makedirs_def Let_def path_exists_def isdir_def upload_entries_def
      split: option.splits node.splits)

lemma makedirs_blocked:
  "path_exists fs t \<Longrightarrow> \<not> isdir fs t \<Longrightarrow> makedirs t fs = Inl FileExistsError"
  by (auto simp: makedirs_def Let_def path_exists_def isdir_def upload_entries_def
      split: option.splits node.splits)

lemma assemble_complete:
  assumes "\<forall>i \<in> set idx. map_of temp (chunk_name i) \<noteq> None"
    and "filename \<notin> chunk_name ` set idx"
  shows "assemble flushed filename idx written temp =
           (None, AList.update filename
                    (concat written @ concat (map (\<lambda>i. the (map_of temp (chunk_name i))) idx))
                    temp)"
  using assms
proof (induction idx arbitrary: written)
  case Nil
  then show ?case by simp
next
  case (Cons i idx)
  from Cons.prems obtain part where part: "map_of temp (chunk_name i) = Some part" by auto
  have ne: "chunk_name i \<noteq> filename" using Cons.prems by auto
  have "map_of (AList.update filename (on_disk flushed written) temp) (chunk_name i) = Some part"
    using part ne by (simp add: update_conv')
  moreover have "assemble flushed filename idx (written @ [part]) temp =
           (None, AList.update filename
                    (concat (written @ [part])
                       @ concat (map (\<lambda>i. the (map_of temp (chunk_name i))) idx)) temp)"
    using Cons.prems by (intro Cons.IH) auto
  ultimately show ?case using part by simp
qed

lemma assemble_missing:
  assumes "\<exists>i \<in> set idx. map_of temp (chunk_name i) = None"
    and "filename \<notin> chunk_name ` set idx"
  shows "fst (assemble flushed filename idx written temp) = Some FileNotFoundError"
  using assms
proof (induction idx arbitrary: written)
  case Nil
  then show ?case by simp
next
  case (Cons i idx)
  have ne: "chunk_name i \<noteq> filename" using Cons.prems by auto
  have look: "map_of (AList.update filename (on_disk flushed written) temp) (chunk_name i)
                = map_of temp (chunk_name i)"
    using ne by (simp add: update_conv')
  show ?case
  proof (cases "map_of temp (chunk_name i)")
    case None
    then show ?thesis using look by simp
  next
    case (Some part)
    then have "\<exists>i \<in> set idx. map_of temp (chunk_name i) = None" using Cons.prems by auto
    moreover have "filename \<notin> chunk_name ` set idx" using Cons.prems by auto
    ultimately show ?thesis using Cons.IH [of "written @ [part]"] Some look by simp
  qed
qed

lemma save_after_get:
  assumes "get db tk = Some share"
  shows "\<exists>db'. save db (share\<lparr>files := fl\<rparr>) = Inr db'" and "\<exists>db'. save db share = Inr db'"
  using assms
  by (auto simp: save_def get_def share_of_row_def split: if_splits option.splits)

lemma path_exists_set_staging_dir [simp]:
  "path_exists (set_staging_dir file_id d fs) t = path_exists fs t"
  by (simp add: path_exists_def)

lemma isdir_set_staging_dir [simp]:
  "isdir (set_staging_dir file_id d fs) t = isdir fs t"
  by (simp add: isdir_def)

lemma upload_chunk_assembles:
  fixes n :: int
  assumes g: "get (dbase w) tk = Some share"
    and fn: "sf raw \<noteq> []" "sf raw \<notin> chunk_name ` {1..n}"
    and mk: "\<not> (path_exists (fsys w) tk \<and> \<not> isdir (fsys w) tk)"
    and present: "\<forall>i \<in> {1..n}. map_of (persist_chunk file_id n chunk (fsys w)) (chunk_name i) \<noteq> None"
  shows "fst (upload_chunk sf flushed n n file_id raw tk chunk w) = Done tk
    \<and> map_of (token_files (fsys (snd (upload_chunk sf flushed n n file_id raw tk chunk w))) tk)
         (sf raw)
        = Some (concat (map (\<lambda>i. the (map_of (persist_chunk file_id n chunk (fsys w))
                                          (chunk_name i))) [1..n]))
    \<and> (\<forall>name. name \<noteq> sf raw \<longrightarrow>
          map_of (token_files (fsys (snd (upload_chunk sf flushed n n file_id raw tk chunk w))) tk)
            name
          = map_of (token_files (fsys w) tk) name)"
proof -
  let ?t1 = "persist_chunk file_id n chunk (fsys w)"
  let ?blob = "concat (map (\<lambda>i. the (map_of ?t1 (chunk_name i))) [1..n])"
  let ?t2 = "AList.update (sf raw) ?blob ?t1"
  let ?fs1 = "set_staging_dir file_id ?t1 (fsys w)"
  let ?fs2 = "set_staging_dir file_id ?t2 ?fs1"
  have tk: "token share = tk" using g by (rule get_Some_token)
  have asm: "assemble flushed (sf raw) [1..n] [] ?t1 = (None, ?t2)"
    using assemble_complete [of "[1..n]" ?t1 "sf raw" flushed "[]"] present fn by simp
  obtain fs3 where fs3: "makedirs tk ?fs2 = Inr fs3"
    using makedirs_succeeds [of ?fs2 tk] mk by auto
  have look: "map_of ?t2 (sf raw) = Some ?blob" by (simp add: update_conv')
  obtain db1 where db1: "save (dbase w) (share\<lparr>files := files share @ [sf raw]\<rparr>) = Inr db1"
    using save_after_get(1) [OF g] by blast
  obtain db2 where db2: "save (dbase w) share = Inr db2"
    using save_after_get(2) [OF g] by blast
  have tf3: "token_files fs3 tk = token_files (fsys w) tk"
    using makedirs_Inr(1) [OF fs3] by simp
  have res: "fst (upload_chunk sf flushed n n file_id raw tk chunk w) = Done tk"
    "token_files (fsys (snd (upload_chunk sf flushed n n file_id raw tk chunk w))) tk
       = AList.update (sf raw) ?blob (token_files (fsys w) tk)"
    using g fn(1) asm fs3 look db1 db2 tk tf3
    by (simp_all add: upload_chunk_def Let_def)
  show ?thesis
    unfolding res by (simp add: update_conv')
qed

lemma upload_chunk_incomplete:
  fixes n :: int
  assumes g: "get (dbase w) tk = Some share"
    and fn: "sf raw \<noteq> []" "sf raw \<notin> chunk_name ` {1..n}"
    and missing: "\<exists>i \<in> {1..n}. map_of (persist_chunk file_id n chunk (fsys w)) (chunk_name i) = None"
  shows "fst (upload_chunk sf flushed n n file_id raw tk chunk w) = Server_error FileNotFoundError
    \<and> uploads (fsys (snd (upload_chunk sf flushed n n file_id raw tk chunk w))) = uploads (fsys w)
    \<and> dbase (snd (upload_chunk sf flushed n n file_id raw tk chunk w)) = dbase w"
proof -
  let ?t1 = "persist_chunk file_id n chunk (fsys w)"
  obtain e t2 where a: "assemble flushed (sf raw) [1..n] [] ?t1 = (e, t2)"
    by (cases "assemble flushed (sf raw) [1..n] [] ?t1") auto
  have "e = Some FileNotFoundError"
    using assemble_missing [of "[1..n]" ?t1 "sf raw" flushed "[]"] missing fn a by simp
  then show ?thesis using g fn(1) a by (simp add: upload_chunk_def Let_def)
qed

lemma upload_chunk_blocked:
  fixes n :: int
  assumes g: "get (dbase w) tk = Some share"
    and fn: "sf raw \<noteq> []" "sf raw \<notin> chunk_name ` {1..n}"
    and present: "\<forall>i \<in> {1..n}. map_of (persist_chunk file_id n chunk (fsys w)) (chunk_name i) \<noteq> None"
    and blocked: "path_exists (fsys w) tk" "\<not> isdir (fsys w) tk"
  shows "fst (upload_chunk sf flushed n n file_id raw tk chunk w) = Server_error FileExistsError
    \<and> uploads (fsys (snd (upload_chunk sf flushed n n file_id raw tk chunk w))) = uploads (fsys w)
    \<and> dbase (snd (upload_chunk sf flushed n n file_id raw tk chunk w)) = dbase w"
proof -
  let ?t1 = "persist_chunk file_id n chunk (fsys w)"
  let ?blob = "concat (map (\<lambda>i. the (map_of ?t1 (chunk_name i))) [1..n])"
  let ?t2 = "AList.update (sf raw) ?blob ?t1"
  let ?fs2 = "set_staging_dir file_id ?t2 (set_staging_dir file_id ?t1 (fsys w))"
  have tk: "token share = tk" using g by (rule get_Some_token)
  have asm: "assemble flushed (sf raw) [1..n] [] ?t1 = (None, ?t2)"
    using assemble_complete [of "[1..n]" ?t1 "sf raw" flushed "[]"] present fn by simp
  have mk: "makedirs tk ?fs2 = Inl FileExistsError"
    using blocked by (intro makedirs_blocked) simp_all
  show ?thesis using g fn(1) asm mk tk by (simp add: upload_chunk_def Let_def)
qed

lemma chunk_name_examples:
  "chunk_name 0 = ''chunk_00000''" "chunk_name 1 = ''chunk_00001''"
  "chunk_name 2 = ''chunk_00002''" "chunk_name 3 = ''chunk_00003''"
  "chunk_name 5 = ''chunk_00005''"
  by code_simp+

lemma secure_filename_examples:
  "secure_filename ''a.txt'' = ''a.txt''" "secure_filename ''b.txt'' = ''b.txt''"
  "secure_filename ''../secret'' = ''secret''" "secure_filename ''../..'' = []"
  by code_simp+

lemma plain_name_examples:
  "plain_name ''fid''" "plain_name ''tok''" "plain_name ''a.txt''" "plain_name ''b.txt''"
  "plain_name ''secret''"
  by (simp_all add: plain_name_def)

lemma get_upload_store:
  "get (dbase upload_store) ''tok''
     = Some (share_of_row (example_row ''tok'' ''r@example.org'' [''a.txt''] 3600))"
  by (simp add: get_def upload_store_def example_row_def)

text \<open>
  C4, as stated, fails: for a session of two chunks delivered in the order 2, 1, the
  request for chunk 2 ends in a 500 response (chunk 1 is missing), and the request for
  chunk 1, after which staging holds both indices, is answered \<open>{done: false}\<close>.
\<close>

theorem upload_chunk_out_of_order_counterexample:
  "fst (upload_chunk secure_filename held_back 2 2 ''fid'' ''b.txt'' ''tok'' ''22'' upload_store)
      = Server_error FileNotFoundError
   \<and> fst (upload_chunk secure_filename held_back 1 2 ''fid'' ''b.txt'' ''tok'' ''11''
        (snd (upload_chunk secure_filename held_back 2 2 ''fid'' ''b.txt'' ''tok'' ''22''
                upload_store)))
      = Pending
   \<and> map_of (staging_dir (fsys (snd (upload_chunk secure_filename held_back 1 2 ''fid'' ''b.txt''
        ''tok'' ''11''
        (snd (upload_chunk secure_filename held_back 2 2 ''fid'' ''b.txt'' ''tok'' ''22''
                upload_store)))))
        ''fid'') (chunk_name 1) = Some ''11''
   \<and> map_of (staging_dir (fsys (snd (upload_chunk secure_filename held_back 1 2 ''fid'' ''b.txt''
        ''tok'' ''11''
        (snd (upload_chunk secure_filename held_back 2 2 ''fid'' ''b.txt'' ''tok'' ''22''
                upload_store)))))
        ''fid'') (chunk_name 2) = Some ''22''"
  by code_simp

text \<open>
  C4, amended. Take an existing share and a request whose \<open>fileId\<close> and whose share token
  are single path components; \<open>n\<close> is the total chunk count of the request.
  \<^item> A request whose chunk index differs from \<open>n\<close> is answered \<open>{done: false}\<close>, whatever
    staging holds, and changes neither the upload folder nor the registry.
  \<^item> A request whose chunk index is \<open>n\<close> and whose sanitized name is empty is answered
    with a 500 error, the upload folder and the registry unchanged.
  \<^item> A request whose chunk index is \<open>n\<close> and whose sanitized name is a single path
    component other than the chunk names \<open>chunk_00001\<close> ... of the indices \<open>1..n\<close> is
    answered \<open>{done: true, token}\<close> exactly when, the chunk being stored, staging holds
    all indices \<open>1..n\<close> and the share's path in the upload folder is not a plain file.
    The blob stored under the sanitized name is then the concatenation of the chunks
    \<open>1..n\<close> in index order. When an index is missing the answer is a 500 error
    (\<open>FileNotFoundError\<close>); when all are there and the share's path is a plain file it
    is a 500 error (\<open>FileExistsError\<close>); in both the upload folder and the registry are
    unchanged.
  Nothing is stated for a sanitized name that is one of those chunk names.
\<close>

theorem upload_chunk_done_on_last_index:
  assumes "get (dbase w) tk = Some share" and "plain_name file_id" and "plain_name tk"
  shows "(chunk_number \<noteq> total_chunks \<longrightarrow>
            fst (upload_chunk sf flushed chunk_number total_chunks file_id raw tk chunk w) = Pending
          \<and> uploads (fsys (snd (upload_chunk sf flushed chunk_number total_chunks file_id raw tk
                                  chunk w))) = uploads (fsys w)
          \<and> dbase (snd (upload_chunk sf flushed chunk_number total_chunks file_id raw tk chunk w))
              = dbase w)
    \<and> (sf raw = [] \<longrightarrow>
            fst (upload_chunk sf flushed total_chunks total_chunks file_id raw tk chunk w)
              = Server_error IsADirectoryError
          \<and> uploads (fsys (snd (upload_chunk sf flushed total_chunks total_chunks file_id raw tk
                                  chunk w))) = uploads (fsys w)
          \<and> dbase (snd (upload_chunk sf flushed total_chunks total_chunks file_id raw tk chunk w))
              = dbase w)
    \<and> (plain_name (sf raw) \<and> sf raw \<notin> chunk_name ` {1..total_chunks} \<longrightarrow>
          (fst (upload_chunk sf flushed total_chunks total_chunks file_id raw tk chunk w) = Done tk
             \<longleftrightarrow> (\<forall>i \<in> {1..total_chunks}.
                     map_of (persist_chunk file_id total_chunks chunk (fsys w)) (chunk_name i)
                       \<noteq> None)
                 \<and> \<not> (path_exists (fsys w) tk \<and> \<not> isdir (fsys w) tk))
        \<and> (fst (upload_chunk sf flushed total_chunks total_chunks file_id raw tk chunk w) = Done tk
             \<longrightarrow> map_of (token_files (fsys (snd (upload_chunk sf flushed total_chunks total_chunks
                                                  file_id raw tk chunk w))) tk) (sf raw)
                 = Some (concat (map
                     (\<lambda>i. the (map_of (persist_chunk file_id total_chunks chunk (fsys w))
                                  (chunk_name i)))
                     [1..total_chunks])))
        \<and> ((\<exists>i \<in> {1..total_chunks}.
                map_of (persist_chunk file_id total_chunks chunk (fsys w)) (chunk_name i) = None)
             \<longrightarrow> fst (upload_chunk sf flushed total_chunks total_chunks file_id raw tk chunk w)
                   = Server_error FileNotFoundError)
        \<and> ((\<forall>i \<in> {1..total_chunks}.
                map_of (persist_chunk file_id total_chunks chunk (fsys w)) (chunk_name i) \<noteq> None)
              \<and> path_exists (fsys w) tk \<and> \<not> isdir (fsys w) tk
             \<longrightarrow> fst (upload_chunk sf flushed total_chunks total_chunks file_id raw tk chunk w)
                   = Server_error FileExistsError)
        \<and> (fst (upload_chunk sf flushed total_chunks total_chunks file_id raw tk chunk w) \<noteq> Done tk
             \<longrightarrow> uploads (fsys (snd (upload_chunk sf flushed total_chunks total_chunks file_id raw
                                        tk chunk w))) = uploads (fsys w)
               \<and> dbase (snd (upload_chunk sf flushed total_chunks total_chunks file_id raw tk
                               chunk w)) = dbase w))"
proof -
  let ?R = "upload_chunk sf flushed total_chunks total_chunks file_id raw tk chunk w"
  let ?staged = "persist_chunk file_id total_chunks chunk (fsys w)"
  let ?all = "\<forall>i \<in> {1..total_chunks}. map_of ?staged (chunk_name i) \<noteq> None"
  let ?blocked = "path_exists (fsys w) tk \<and> \<not> isdir (fsys w) tk"
  note g = assms(1)
  have P: "chunk_number \<noteq> total_chunks \<longrightarrow>
            fst (upload_chunk sf flushed chunk_number total_chunks file_id raw tk chunk w) = Pending
          \<and> uploads (fsys (snd (upload_chunk sf flushed chunk_number total_chunks file_id raw tk
                                  chunk w))) = uploads (fsys w)
          \<and> dbase (snd (upload_chunk sf flushed chunk_number total_chunks file_id raw tk chunk w))
              = dbase w"
    using upload_chunk_pending [OF g, of chunk_number total_chunks sf flushed file_id raw chunk]
    by simp
  have E: "sf raw = [] \<longrightarrow>
            fst ?R = Server_error IsADirectoryError
          \<and> uploads (fsys (snd ?R)) = uploads (fsys w) \<and> dbase (snd ?R) = dbase w"
    using upload_chunk_empty_name [OF g, of sf raw flushed total_chunks file_id chunk]
    by simp
  have A: "plain_name (sf raw) \<and> sf raw \<notin> chunk_name ` {1..total_chunks} \<longrightarrow>
          (fst ?R = Done tk \<longleftrightarrow> ?all \<and> \<not> ?blocked)
        \<and> (fst ?R = Done tk
             \<longrightarrow> map_of (token_files (fsys (snd ?R)) tk) (sf raw)
                 = Some (concat (map (\<lambda>i. the (map_of ?staged (chunk_name i))) [1..total_chunks])))
        \<and> ((\<exists>i \<in> {1..total_chunks}. map_of ?staged (chunk_name i) = None)
             \<longrightarrow> fst ?R = Server_error FileNotFoundError)
        \<and> (?all \<and> ?blocked \<longrightarrow> fst ?R = Server_error FileExistsError)
        \<and> (fst ?R \<noteq> Done tk
             \<longrightarrow> uploads (fsys (snd ?R)) = uploads (fsys w) \<and> dbase (snd ?R) = dbase w)"
  proof (intro impI)
    assume h: "plain_name (sf raw) \<and> sf raw \<notin> chunk_name ` {1..total_chunks}"
    then have fn: "sf raw \<noteq> []" "sf raw \<notin> chunk_name ` {1..total_chunks}"
      by (simp_all add: plain_name_def)
    consider (missing) "\<not> ?all" | (blocked) "?all" "?blocked" | (ok) "?all" "\<not> ?blocked"
      by blast
    then show "(fst ?R = Done tk \<longleftrightarrow> ?all \<and> \<not> ?blocked)
        \<and> (fst ?R = Done tk
             \<longrightarrow> map_of (token_files (fsys (snd ?R)) tk) (sf raw)
                 = Some (concat (map (\<lambda>i. the (map_of ?staged (chunk_name i))) [1..total_chunks])))
        \<and> ((\<exists>i \<in> {1..total_chunks}. map_of ?staged (chunk_name i) = None)
             \<longrightarrow> fst ?R = Server_error FileNotFoundError)
        \<and> (?all \<and> ?blocked \<longrightarrow> fst ?R = Server_error FileExistsError)
        \<and> (fst ?R \<noteq> Done tk
             \<longrightarrow> uploads (fsys (snd ?R)) = uploads (fsys w) \<and> dbase (snd ?R) = dbase w)"
    proof cases
      case missing
      then have m: "\<exists>i \<in> {1..total_chunks}. map_of ?staged (chunk_name i) = None" by simp
      note r = upload_chunk_incomplete [where sf = sf and raw = raw and w = w and tk = tk and share = share and n = total_chunks
          and file_id = file_id and chunk = chunk and flushed = flushed, OF g fn m]
      then have "fst ?R \<noteq> Done tk" by simp
      then show ?thesis using r missing by blast
    next
      case blocked
      note r = upload_chunk_blocked [where sf = sf and raw = raw and w = w and tk = tk and share = share and n = total_chunks
          and file_id = file_id and chunk = chunk and flushed = flushed, OF g fn blocked(1)]
      have r': "fst ?R = Server_error FileExistsError
        \<and> uploads (fsys (snd ?R)) = uploads (fsys w) \<and> dbase (snd ?R) = dbase w"
        using r blocked(2) by blast
      then have "fst ?R \<noteq> Done tk" by simp
      then show ?thesis using r' blocked by blast
    next
      case ok
      note r = upload_chunk_assembles [where sf = sf and raw = raw and w = w and tk = tk and share = share and n = total_chunks
          and file_id = file_id and chunk = chunk and flushed = flushed, OF g fn ok(2) ok(1)]
      show ?thesis using r ok by blast
    qed
  qed
  show ?thesis using P E A by blast
qed

theorem upload_chunk_done_on_last_index_witness:
  "get (dbase upload_store) ''tok''
     = Some (share_of_row (example_row ''tok'' ''r@example.org'' [''a.txt''] 3600))
   \<and> plain_name ''fid'' \<and> plain_name ''tok''
   \<and> (1::int) \<noteq> 2
   \<and> fst (upload_chunk secure_filename held_back 1 2 ''fid'' ''b.txt'' ''tok'' ''11'' upload_store)
      = Pending
   \<and> secure_filename ''b.txt'' = ''b.txt'' \<and> plain_name ''b.txt''
   \<and> chunk_name 1 = ''chunk_00001'' \<and> chunk_name 2 = ''chunk_00002''
   \<and> isdir (fsys upload_store) ''tok''
   \<and> persist_chunk ''fid'' 2 ''22''
        (fsys (snd (upload_chunk secure_filename held_back 1 2 ''fid'' ''b.txt'' ''tok'' ''11''
                      upload_store)))
      = [(''chunk_00001'', ''11''), (''chunk_00002'', ''22'')]
   \<and> fst (upload_chunk secure_filename held_back 2 2 ''fid'' ''b.txt'' ''tok'' ''22''
          (snd (upload_chunk secure_filename held_back 1 2 ''fid'' ''b.txt'' ''tok'' ''11''
                  upload_store)))
      = Done ''tok''
   \<and> map_of (token_files (fsys (snd (upload_chunk secure_filename held_back 2 2 ''fid'' ''b.txt''
          ''tok'' ''22''
          (snd (upload_chunk secure_filename held_back 1 2 ''fid'' ''b.txt'' ''tok'' ''11''
                  upload_store)))))
          ''tok'') ''b.txt'' = Some ''1122''
   \<and> persist_chunk ''fid'' 2 ''22'' (fsys upload_store) = [(''chunk_00002'', ''22'')]
   \<and> fst (upload_chunk secure_filename held_back 2 2 ''fid'' ''b.txt'' ''tok'' ''22'' upload_store)
      = Server_error FileNotFoundError
   \<and> secure_filename ''../..'' = []
   \<and> fst (upload_chunk secure_filename held_back 1 1 ''fid'' ''../..'' ''tok'' ''11'' upload_store)
      = Server_error IsADirectoryError"
proof -
  let ?share = "share_of_row (example_row ''tok'' ''r@example.org'' [''a.txt''] 3600)"
  let ?w1 = "snd (upload_chunk secure_filename held_back 1 2 ''fid'' ''b.txt'' ''tok'' ''11''
                    upload_store)"
  have g0: "get (dbase upload_store) ''tok'' = Some ?share" by (rule get_upload_store)
  have g1: "get (dbase ?w1) ''tok'' = Some ?share" by code_simp
  have pf: "plain_name ''fid''" and pt: "plain_name ''tok''" and pb: "plain_name ''b.txt''"
    by (rule plain_name_examples)+
  have ne: "(1::int) \<noteq> 2" by simp
  have sfb: "secure_filename ''b.txt'' = ''b.txt''" by code_simp
  have sfe: "secure_filename ''../..'' = []" by code_simp
  have f1: "plain_name (secure_filename ''b.txt'')" unfolding sfb by (rule pb)
  have f2: "secure_filename ''b.txt'' \<notin> chunk_name ` {1..2}" by code_simp
  have c: "chunk_name 1 = ''chunk_00001''" "chunk_name 2 = ''chunk_00002''"
    by (rule chunk_name_examples)+
  have dir0: "isdir (fsys upload_store) ''tok''" by code_simp
  have d1: "\<not> (path_exists (fsys ?w1) ''tok'' \<and> \<not> isdir (fsys ?w1) ''tok'')" by code_simp
  have st1: "persist_chunk ''fid'' 2 ''22'' (fsys ?w1)
               = [(''chunk_00001'', ''11''), (''chunk_00002'', ''22'')]"
    by code_simp
  have st0: "persist_chunk ''fid'' 2 ''22'' (fsys upload_store) = [(''chunk_00002'', ''22'')]"
    by code_simp
  have all: "\<forall>i \<in> {1..2}. map_of (persist_chunk ''fid'' 2 ''22'' (fsys ?w1)) (chunk_name i) \<noteq> None"
    by code_simp
  have ex: "\<exists>i \<in> {1..2}.
      map_of (persist_chunk ''fid'' 2 ''22'' (fsys upload_store)) (chunk_name i) = None"
    by code_simp
  have blob: "concat (map (\<lambda>i. the (map_of (persist_chunk ''fid'' 2 ''22'' (fsys ?w1))
                                         (chunk_name i))) [1..2]) = ''1122''"
    by code_simp
  note A = upload_chunk_done_on_last_index
             [OF g0 pf pt, where chunk_number = 1 and total_chunks = 2 and sf = secure_filename
                and flushed = held_back and raw = "''b.txt''" and chunk = "''11''"]
  note B = upload_chunk_done_on_last_index
             [OF g1 pf pt, where chunk_number = 2 and total_chunks = 2 and sf = secure_filename
                and flushed = held_back and raw = "''b.txt''" and chunk = "''22''"]
  note C = upload_chunk_done_on_last_index
             [OF g0 pf pt, where chunk_number = 2 and total_chunks = 2 and sf = secure_filename
                and flushed = held_back and raw = "''b.txt''" and chunk = "''22''"]
  note D = upload_chunk_done_on_last_index
             [OF g0 pf pt, where chunk_number = 1 and total_chunks = 1 and sf = secure_filename
                and flushed = held_back and raw = "''../..''" and chunk = "''11''"]
  have r1: "fst (upload_chunk secure_filename held_back 1 2 ''fid'' ''b.txt'' ''tok'' ''11''
                   upload_store) = Pending"
    using A ne by blast
  have r2a: "fst (upload_chunk secure_filename held_back 2 2 ''fid'' ''b.txt'' ''tok'' ''22'' ?w1)
               = Done ''tok''"
    using B f1 f2 d1 all by blast
  have r2b: "map_of (token_files (fsys (snd (upload_chunk secure_filename held_back 2 2 ''fid''
          ''b.txt'' ''tok'' ''22'' ?w1))) ''tok'') ''b.txt'' = Some ''1122''"
    using B f1 f2 r2a unfolding blob sfb by blast
  have r3: "fst (upload_chunk secure_filename held_back 2 2 ''fid'' ''b.txt'' ''tok'' ''22''
                   upload_store) = Server_error FileNotFoundError"
    using C f1 f2 ex by blast
  have r4: "fst (upload_chunk secure_filename held_back 1 1 ''fid'' ''../..'' ''tok'' ''11''
                   upload_store) = Server_error IsADirectoryError"
    using D sfe by blast
  show ?thesis using g0 pf pt ne r1 sfb pb c dir0 st1 r2a r2b st0 r3 sfe r4 by blast
qed

text \<open>
  C6, as stated, fails: chunk 5 of 3 is stored in staging and answered with status 200,
  and chunk 0 of 0 triggers the assembly of an empty file.
\<close>

theorem upload_chunk_invalid_index_counterexample:
  "status_code (fst (upload_chunk secure_filename held_back 5 3 ''fid'' ''b.txt'' ''tok'' ''55''
                       upload_store))
     = 200
   \<and> chunked_uploads (fsys (snd (upload_chunk secure_filename held_back 5 3 ''fid'' ''b.txt''
        ''tok'' ''55'' upload_store))) = [(''fid'', [(''chunk_00005'', ''55'')])]
   \<and> fst (upload_chunk secure_filename held_back 0 0 ''fid'' ''b.txt'' ''tok'' ''00'' upload_store)
       = Done ''tok''
   \<and> token_files (fsys (snd (upload_chunk secure_filename held_back 0 0 ''fid'' ''b.txt'' ''tok''
        ''00'' upload_store))) ''tok'' = [(''a.txt'', ''OLD''), (''b.txt'', [])]"
  by code_simp

text \<open>
  C6, amended. The chunk index is not validated. For an existing share and a request
  whose \<open>fileId\<close> is a single path component, a chunk request whose index exceeds the
  total chunk count, or whose total chunk count is not positive and differs from the
  index, is accepted: the chunk is stored in staging under its index, the answer is
  \<open>{done: false}\<close> with status 200, and no assembly happens (the upload folder and the
  registry are unchanged).
\<close>

theorem upload_chunk_index_not_validated:
  assumes "get (dbase w) tk = Some share" and "plain_name file_id"
    and "total_chunks < chunk_number \<or> (total_chunks \<le> 0 \<and> chunk_number \<noteq> total_chunks)"
  shows "fst (upload_chunk sf flushed chunk_number total_chunks file_id raw tk chunk w) = Pending
    \<and> status_code (fst (upload_chunk sf flushed chunk_number total_chunks file_id raw tk chunk w))
        = 200
    \<and> map_of (staging_dir
          (fsys (snd (upload_chunk sf flushed chunk_number total_chunks file_id raw tk chunk w)))
          file_id)
        (chunk_name chunk_number) = Some chunk
    \<and> uploads (fsys (snd (upload_chunk sf flushed chunk_number total_chunks file_id raw tk chunk w)))
        = uploads (fsys w)
    \<and> dbase (snd (upload_chunk sf flushed chunk_number total_chunks file_id raw tk chunk w))
        = dbase w"
proof -
  have "chunk_number \<noteq> total_chunks" using assms(3) by auto
  then have p: "upload_chunk sf flushed chunk_number total_chunks file_id raw tk chunk w =
           (Pending, w\<lparr>fsys := set_staging_dir file_id
               (persist_chunk file_id chunk_number chunk (fsys w)) (fsys w)\<rparr>)"
    using assms(1) by (rule upload_chunk_pending [rotated])
  show ?thesis by (simp add: p persist_chunk_def update_conv')
qed

theorem upload_chunk_index_not_validated_witness:
  "get (dbase upload_store) ''tok''
     = Some (share_of_row (example_row ''tok'' ''r@example.org'' [''a.txt''] 3600))
   \<and> plain_name ''fid''
   \<and> (3::int) < 5
   \<and> fst (upload_chunk secure_filename held_back 5 3 ''fid'' ''b.txt'' ''tok'' ''55'' upload_store)
       = Pending
   \<and> map_of (staging_dir
          (fsys (snd (upload_chunk secure_filename held_back 5 3 ''fid'' ''b.txt'' ''tok'' ''55''
                        upload_store)))
          ''fid'') (chunk_name 5) = Some ''55''"
proof -
  have g0: "get (dbase upload_store) ''tok''
     = Some (share_of_row (example_row ''tok'' ''r@example.org'' [''a.txt''] 3600))"
    by (rule get_upload_store)
  have pf: "plain_name ''fid''" by (rule plain_name_examples)
  have h: "(3::int) < 5 \<or> ((3::int) \<le> 0 \<and> (5::int) \<noteq> 3)" by simp
  from upload_chunk_index_not_validated
         [OF g0 pf h, where sf = secure_filename and flushed = held_back and raw = "''b.txt''"
            and chunk = "''55''"] g0 pf
  show ?thesis by simp
qed

section \<open>Name collisions\<close>

text \<open>
  C5. A chunked upload of \<open>a.txt\<close> into a share whose directory already holds \<open>a.txt\<close>
  moves the assembled file onto the existing one: the directory holds the single file
  \<open>a.txt\<close> with the new content, the old content is gone. The direct save of the same
  file into the same directory stores it as \<open>a_1.txt\<close> and keeps the old file.
\<close>

theorem chunked_upload_overwrites_existing_file:
  "token_files (fsys upload_store) ''tok'' = [(''a.txt'', ''OLD'')]
   \<and> fst (upload_chunk secure_filename held_back 1 1 ''fid'' ''a.txt'' ''tok'' ''NEW'' upload_store)
       = Done ''tok''
   \<and> token_files (fsys (snd (upload_chunk secure_filename held_back 1 1 ''fid'' ''a.txt'' ''tok''
        ''NEW'' upload_store))) ''tok'' = [(''a.txt'', ''NEW'')]
   \<and> save_uploaded_files secure_filename [(''a.txt'', ''NEW'')] ''tok'' (fsys upload_store)
       = Inr ([''a_1.txt''], set_token_files ''tok'' [(''a.txt'', ''OLD''), (''a_1.txt'', ''NEW'')]
                (fsys upload_store))"
  by code_simp

section \<open>Sanitized names and the token directory\<close>

lemma of_char_digit_char: "d < 10 \<Longrightarrow> (of_char (digit_char d) :: nat) = 48 + d"
  by (simp add: digit_char_def)

lemma digit_char_not_sep: "d < 10 \<Longrightarrow> digit_char d \<noteq> CHR ''/''"
proof
  assume d: "d < 10" and e: "digit_char d = CHR ''/''"
  have "(of_char (digit_char d) :: nat) = 48 + d" using d by (rule of_char_digit_char)
  moreover have "(of_char (CHR ''/'') :: nat) = 47" by simp
  ultimately show False using e by simp
qed

lemma str_nat_no_sep: "CHR ''/'' \<notin> set (str_nat n)"
proof (induction n rule: str_nat.induct)
  case (1 n)
  show ?case
  proof (cases "n < 10")
    case True
    then show ?thesis using digit_char_not_sep [of n] by (simp add: str_nat.simps [of n])
  next
    case False
    moreover have "n mod 10 < 10" by simp
    ultimately show ?thesis
      using 1 digit_char_not_sep [of "n mod 10"] by (simp add: str_nat.simps [of n])
  qed
qed

lemma plain_numbered:
  assumes "plain_name original"
  shows "plain_name (numbered original k)"
proof -
  obtain name ext where se: "splitext original = (name, ext)" by (cases "splitext original")
  have o: "name @ ext = original" using splitext_append [of original] se by simp
  have n: "numbered original k = name @ ''_'' @ str_nat k @ ext"
    by (simp add: numbered_def se)
  have "CHR ''/'' \<notin> set original" using assms by (simp add: plain_name_def)
  then have "CHR ''/'' \<notin> set name" "CHR ''/'' \<notin> set ext" using o by auto
  then have sep: "CHR ''/'' \<notin> set (numbered original k)"
    using str_nat_no_sep [of k] by (simp add: n)
  have us: "CHR ''_'' \<in> set (numbered original k)" by (simp add: n)
  then have "numbered original k \<noteq> []" "numbered original k \<noteq> ''.''"
    "numbered original k \<noteq> ''..''"
    by auto
  then show ?thesis using sep by (simp add: plain_name_def)
qed

lemma unique_filename_fresh: "unique_filename d original fc \<notin> fst ` set d"
proof (induction d original fc rule: unique_filename.induct)
  case (1 d original filename counter)
  show ?case
  proof (cases "filename \<in> fst ` set d")
    case True
    then show ?thesis
      using 1 by (simp add: unique_filename.simps [of d original filename counter])
  next
    case False
    then show ?thesis
      by (simp add: unique_filename.simps [of d original filename counter])
  qed
qed

lemma unique_filename_free:
  "filename \<notin> fst ` set d \<Longrightarrow> unique_filename d original (filename, counter) = filename"
  by (simp add: unique_filename.simps [of d original filename counter])

lemma unique_filename_plain:
  "plain_name original \<Longrightarrow> plain_name (fst fc) \<Longrightarrow> plain_name (unique_filename d original fc)"
proof (induction d original fc rule: unique_filename.induct)
  case (1 d original filename counter)
  show ?case
  proof (cases "filename \<in> fst ` set d")
    case True
    then show ?thesis
      using 1 plain_numbered [of original counter]
      by (simp add: unique_filename.simps [of d original filename counter])
  next
    case False
    then show ?thesis using 1
      by (simp add: unique_filename.simps [of d original filename counter])
  qed
qed

lemma unique_filename_shape:
  "unique_filename d original fc = fst fc
   \<or> (\<exists>k \<ge> snd fc. unique_filename d original fc = numbered original k
        \<and> fst fc \<in> fst ` set d \<and> (\<forall>j. snd fc \<le> j \<and> j < k \<longrightarrow> numbered original j \<in> fst ` set d))"
proof (induction d original fc rule: unique_filename.induct)
  case (1 d original filename counter)
  show ?case
  proof (cases "filename \<in> fst ` set d")
    case False
    then show ?thesis by (simp add: unique_filename.simps [of d original filename counter])
  next
    case True
    let ?r = "unique_filename d original (numbered original counter, counter + 1)"
    have u: "unique_filename d original (filename, counter) = ?r"
      using True by (simp add: unique_filename.simps [of d original filename counter])
    from 1 [OF True] have "?r = numbered original counter
      \<or> (\<exists>k \<ge> counter + 1. ?r = numbered original k \<and> numbered original counter \<in> fst ` set d
            \<and> (\<forall>j. counter + 1 \<le> j \<and> j < k \<longrightarrow> numbered original j \<in> fst ` set d))"
      by simp
    then show ?thesis
    proof
      assume "?r = numbered original counter"
      then show ?thesis using True u by auto
    next
      assume "\<exists>k \<ge> counter + 1. ?r = numbered original k \<and> numbered original counter \<in> fst ` set d
            \<and> (\<forall>j. counter + 1 \<le> j \<and> j < k \<longrightarrow> numbered original j \<in> fst ` set d)"
      then obtain k where k: "counter + 1 \<le> k" "?r = numbered original k"
        "numbered original counter \<in> fst ` set d"
        "\<forall>j. counter + 1 \<le> j \<and> j < k \<longrightarrow> numbered original j \<in> fst ` set d"
        by blast
      have "\<forall>j. counter \<le> j \<and> j < k \<longrightarrow> numbered original j \<in> fst ` set d"
      proof (intro allI impI)
        fix j assume "counter \<le> j \<and> j < k"
        then show "numbered original j \<in> fst ` set d"
          using k(3,4) by (cases "j = counter") auto
      qed
      then show ?thesis using k True u by (auto intro!: exI [of _ k])
    qed
  qed
qed

lemma save_files_invariant:
  assumes "\<forall>x. sf x = [] \<or> plain_name (sf x)"
    and "save_files sf fls (saved, d) = (saved', d')"
  shows "\<exists>new. saved' = saved @ new \<and> (\<forall>n \<in> set new. plain_name n)
           \<and> fst ` set d' = fst ` set d \<union> set new
           \<and> (\<forall>n \<in> fst ` set d. map_of d' n = map_of d n)"
  using assms(2)
proof (induction fls arbitrary: saved d)
  case Nil
  then show ?case by simp
next
  case (Cons f fls)
  obtain raw content where f: "f = (raw, content)" by (cases f)
  show ?case
  proof (cases "raw \<noteq> [] \<and> sf raw \<noteq> []")
    case False
    then have "save_files sf fls (saved, d) = (saved', d')"
      using Cons.prems by (cases "raw = []") (simp_all add: f Let_def)
    then show ?thesis by (rule Cons.IH)
  next
    case True
    let ?stored = "unique_filename d (sf raw) (sf raw, 1)"
    have pl: "plain_name ?stored"
      using assms(1) True unique_filename_plain [of "sf raw" "(sf raw, 1)" d] by auto
    have fresh: "?stored \<notin> fst ` set d" by (rule unique_filename_fresh)
    have "save_files sf fls (saved @ [?stored], AList.update ?stored content d) = (saved', d')"
      using Cons.prems True by (simp add: f Let_def)
    from Cons.IH [OF this] obtain new where new:
      "saved' = (saved @ [?stored]) @ new" "\<forall>n \<in> set new. plain_name n"
      "fst ` set d' = fst ` set (AList.update ?stored content d) \<union> set new"
      "\<forall>n \<in> fst ` set (AList.update ?stored content d).
          map_of d' n = map_of (AList.update ?stored content d) n"
      by blast
    have "\<forall>n \<in> fst ` set d. map_of d' n = map_of d n"
    proof
      fix n assume n: "n \<in> fst ` set d"
      have "n \<noteq> ?stored"
      proof
        assume "n = ?stored"
        then have "?stored \<in> fst ` set d" using n by simp
        then show False using fresh by (rule notE [rotated])
      qed
      have "n \<in> fst ` set (AList.update ?stored content d)"
        using n by (simp add: dom_update)
      then have "map_of d' n = map_of (AList.update ?stored content d) n"
        using new(4) by blast
      also have "\<dots> = map_of d n"
        using \<open>n \<noteq> ?stored\<close> by (simp add: update_conv')
      finally show "map_of d' n = map_of d n" .
    qed
    moreover have "saved' = saved @ (?stored # new)" using new(1) by simp
    moreover have "\<forall>n \<in> set (?stored # new). plain_name n" using new(2) pl by simp
    moreover have "fst ` set d' = fst ` set d \<union> set (?stored # new)"
      using new(3) by (simp add: dom_update)
    ultimately show ?thesis by blast
  qed
qed

lemma upload_chunk_token_dir:
  assumes g: "get (dbase w) tk = Some share"
  shows "(token_files (fsys (snd (upload_chunk sf flushed c n file_id raw tk chunk w))) tk
            = token_files (fsys w) tk
          \<or> (sf raw \<noteq> [] \<and> (\<exists>blob.
                token_files (fsys (snd (upload_chunk sf flushed c n file_id raw tk chunk w))) tk
                  = AList.update (sf raw) blob (token_files (fsys w) tk))))
       \<and> (\<forall>u. u \<noteq> tk \<longrightarrow>
             map_of (upload_entries (fsys (snd (upload_chunk sf flushed c n file_id raw tk chunk w)))) u
               = map_of (upload_entries (fsys w)) u)"
proof -
  let ?t1 = "persist_chunk file_id c chunk (fsys w)"
  let ?fs1 = "set_staging_dir file_id ?t1 (fsys w)"
  have tk: "token share = tk" using g by (rule get_Some_token)
  show ?thesis
  proof (cases "c = n \<and> sf raw \<noteq> []")
    case False
    then show ?thesis using g by (auto simp: upload_chunk_def Let_def)
  next
    case True
    obtain e t2 where a: "assemble flushed (sf raw) [1..n] [] ?t1 = (e, t2)"
      by (cases "assemble flushed (sf raw) [1..n] [] ?t1") auto
    let ?fs2 = "set_staging_dir file_id t2 ?fs1"
    show ?thesis
    proof (cases e)
      case (Some err)
      then show ?thesis using g True a by (simp add: upload_chunk_def Let_def)
    next
      case None
      show ?thesis
      proof (cases "makedirs tk ?fs2")
        case (Inl err)
        then show ?thesis using g True a None tk by (simp add: upload_chunk_def Let_def)
      next
        case (Inr fs3)
        have tf3: "token_files fs3 tk = token_files (fsys w) tk"
          using makedirs_Inr(1) [OF Inr] by simp
        have ue3: "u \<noteq> tk \<Longrightarrow> map_of (upload_entries fs3) u = map_of (upload_entries (fsys w)) u"
          for u using makedirs_Inr(2) [OF Inr, of u] by simp
        show ?thesis
        proof (cases "map_of t2 (sf raw)")
          case None': None
          then show ?thesis
            using g True a None tk Inr tf3 ue3 by (simp add: upload_chunk_def Let_def)
        next
          case (Some blob)
          let ?fs4 = "set_token_files tk (AList.update (sf raw) blob (token_files fs3 tk))
                        (set_staging_dir file_id (AList.delete (sf raw) t2) fs3)"
          have tf4: "token_files ?fs4 tk = AList.update (sf raw) blob (token_files (fsys w) tk)"
            using tf3 by simp
          have ue4: "u \<noteq> tk \<Longrightarrow> map_of (upload_entries ?fs4) u = map_of (upload_entries (fsys w)) u"
            for u using ue3 [of u] by (simp add: update_conv')
          have "fsys (snd (upload_chunk sf flushed c n file_id raw tk chunk w)) = ?fs4
             \<or> (\<exists>t5. fsys (snd (upload_chunk sf flushed c n file_id raw tk chunk w))
                        = rmdir_staging file_id t5 ?fs4)"
            using g True a None tk Inr Some
            by (auto simp: upload_chunk_def Let_def split: sum.splits)
          then show ?thesis using tf4 ue4 True by auto
        qed
      qed
    qed
  qed
qed

lemma set_token_files_same:
  assumes l: "map_of (upload_entries fsm) tok = Some (Dir d)"
    and u: "uploads fsm = Some (upload_entries fsm)"
  shows "set_token_files tok (token_files fsm tok) fsm = fsm"
proof -
  have k: "AList.update tok (Dir d) (upload_entries fsm) = upload_entries fsm"
    using l by (rule update_triv)
  have "set_token_files tok (token_files fsm tok) fsm = fsm\<lparr>uploads := Some (upload_entries fsm)\<rparr>"
    unfolding set_token_files_def token_files_def l using k by simp
  also have "\<dots> = fsm\<lparr>uploads := uploads fsm\<rparr>" unfolding u [symmetric] ..
  also have "\<dots> = fsm" by simp
  finally show ?thesis .
qed

lemma makedirs_set_token_files:
  assumes "makedirs tok fs = Inr fsm"
  shows "set_token_files tok (token_files fsm tok) fsm = fsm"
proof -
  let ?ents = "upload_entries fs"
  show ?thesis
  proof (cases "map_of ?ents tok")
    case None
    then have m: "fsm = fs\<lparr>uploads := Some (?ents @ [(tok, Dir [])])\<rparr>"
      using assms by (simp add: makedirs_def Let_def)
    have u: "uploads fsm = Some (?ents @ [(tok, Dir [])])" unfolding m by simp
    have e: "upload_entries fsm = ?ents @ [(tok, Dir [])]"
      unfolding upload_entries_def [of fsm] u by simp
    have l: "map_of (upload_entries fsm) tok = Some (Dir [])"
      unfolding e using None by (simp add: map_add_def)
    show ?thesis using l u unfolding e [symmetric] by (rule set_token_files_same)
  next
    case (Some nd)
    show ?thesis
    proof (cases nd)
      case (File b)
      then show ?thesis using assms Some by (simp add: makedirs_def Let_def)
    next
      case (Dir d)
      then have m: "fsm = fs\<lparr>uploads := Some ?ents\<rparr>"
        using assms Some by (simp add: makedirs_def Let_def)
      have u: "uploads fsm = Some ?ents" unfolding m by simp
      have e: "upload_entries fsm = ?ents"
        unfolding upload_entries_def [of fsm] u by simp
      have l: "map_of (upload_entries fsm) tok = Some (Dir d)"
        unfolding e using Some Dir by simp
      show ?thesis using l u unfolding e [symmetric] by (rule set_token_files_same)
    qed
  qed
qed

lemma save_uploaded_files_result:
  assumes sf: "\<forall>x. sf x = [] \<or> plain_name (sf x)"
    and r: "save_uploaded_files sf fls tok fs = Inr (saved, fs')"
  shows "(\<forall>n \<in> set saved. plain_name n)
    \<and> fst ` set (token_files fs' tok) = fst ` set (token_files fs tok) \<union> set saved
    \<and> (\<forall>n \<in> fst ` set (token_files fs tok).
          map_of (token_files fs' tok) n = map_of (token_files fs tok) n)
    \<and> (\<forall>u. u \<noteq> tok \<longrightarrow> map_of (upload_entries fs') u = map_of (upload_entries fs) u)
    \<and> chunked_uploads fs' = chunked_uploads fs"
proof -
  obtain fs1 where fs1: "makedirs tok fs = Inr fs1"
    using r by (auto simp: save_uploaded_files_def split: sum.splits)
  obtain sv d where sd: "save_files sf fls ([], token_files fs1 tok) = (sv, d)"
    by (cases "save_files sf fls ([], token_files fs1 tok)") auto
  have eq: "saved = sv" "fs' = set_token_files tok d fs1"
    using r fs1 sd by (simp_all add: save_uploaded_files_def)
  from save_files_invariant [OF sf sd] obtain new where new:
    "sv = [] @ new" "\<forall>n \<in> set new. plain_name n"
    "fst ` set d = fst ` set (token_files fs1 tok) \<union> set new"
    "\<forall>n \<in> fst ` set (token_files fs1 tok). map_of d n = map_of (token_files fs1 tok) n"
    by blast
  have tf1: "token_files fs1 tok = token_files fs tok" using makedirs_Inr(1) [OF fs1] .
  have tf': "token_files fs' tok = d" by (simp add: eq)
  have a: "\<forall>n \<in> set saved. plain_name n" using new(1,2) eq(1) by simp
  have b: "fst ` set (token_files fs' tok) = fst ` set (token_files fs tok) \<union> set saved"
    using new(1,3) eq(1) tf1 tf' by simp
  have c: "\<forall>n \<in> fst ` set (token_files fs tok).
          map_of (token_files fs' tok) n = map_of (token_files fs tok) n"
    using new(4) tf1 tf' by simp
  have d: "\<forall>u. u \<noteq> tok \<longrightarrow> map_of (upload_entries fs') u = map_of (upload_entries fs) u"
    using makedirs_Inr(2) [OF fs1] by (simp add: eq update_conv')
  have e: "chunked_uploads fs' = chunked_uploads fs"
    using makedirs_Inr(3) [OF fs1] by (simp add: eq set_token_files_def)
  show ?thesis using a b c d e by blast
qed

lemma save_uploaded_files_skips:
  assumes "sf raw = []" and "makedirs tok fs = Inr fsm"
  shows "save_uploaded_files sf [(raw, content)] tok fs = Inr ([], fsm)"
  using assms makedirs_set_token_files [OF assms(2)]
  by (simp add: save_uploaded_files_def Let_def)

text \<open>
  C7, as stated, fails: the name \<open>../..\<close> has nothing safe left after sanitizing, and
  the direct save neither fails nor stores anything: it skips the file and returns
  normally with an empty list, the store unchanged.
\<close>

theorem unsafe_name_skipped_counterexample:
  "secure_filename ''../..'' = []
   \<and> save_uploaded_files secure_filename [(''../..'', ''X'')] ''tok'' (fsys upload_store)
       = Inr ([], fsys upload_store)"
  by code_simp

text \<open>
  C7, amended. Let the sanitizer return only the empty name or a single safe path
  component (no separator, not \<open>.\<close> or \<open>..\<close>), as \<open>secure_filename\<close> does, and let the
  token be a single path component.
  \<^item> A direct save that returns has stored every blob under a safe component inside the
    token's directory: the names added to that directory are exactly the returned
    names, the files already there keep their contents, and every other entry of the
    upload folder and the staging area are unchanged.
  \<^item> A file whose sanitized name is empty is skipped without any error: saved alone, the
    result is the empty list and the store as \<open>makedirs\<close> left it.
  \<^item> A chunk upload to an existing share, with a \<open>fileId\<close> that is a single path
    component, adds at most the sanitized name to the share's directory, that name being
    a safe component when it was not there before, and changes no other entry of the
    upload folder.
  Nothing is stated for a \<open>fileId\<close> or a token that is not a single path component.
\<close>

theorem save_stays_in_token_directory:
  assumes "\<forall>x. sf x = [] \<or> plain_name (sf x)"
  shows "(plain_name tok \<and> save_uploaded_files sf fls tok fs = Inr (saved, fs') \<longrightarrow>
            (\<forall>n \<in> set saved. plain_name n)
          \<and> fst ` set (token_files fs' tok) = fst ` set (token_files fs tok) \<union> set saved
          \<and> (\<forall>n \<in> fst ` set (token_files fs tok).
                map_of (token_files fs' tok) n = map_of (token_files fs tok) n)
          \<and> (\<forall>u. u \<noteq> tok \<longrightarrow> map_of (upload_entries fs') u = map_of (upload_entries fs) u)
          \<and> chunked_uploads fs' = chunked_uploads fs)
    \<and> (plain_name tok \<and> sf raw = [] \<and> makedirs tok fs = Inr fsm \<longrightarrow>
          save_uploaded_files sf [(raw, content)] tok fs = Inr ([], fsm))
    \<and> (get (dbase w) tk = Some share \<and> plain_name tk \<and> plain_name file_id \<longrightarrow>
          fst ` set (token_files (fsys (snd (upload_chunk sf flushed c n file_id raw tk chunk w))) tk)
            \<subseteq> insert (sf raw) (fst ` set (token_files (fsys w) tk))
        \<and> (sf raw \<in> fst ` set (token_files
                                   (fsys (snd (upload_chunk sf flushed c n file_id raw tk chunk w)))
                                   tk)
             \<longrightarrow> sf raw \<in> fst ` set (token_files (fsys w) tk) \<or> plain_name (sf raw))
        \<and> (\<forall>u. u \<noteq> tk \<longrightarrow>
              map_of (upload_entries
                        (fsys (snd (upload_chunk sf flushed c n file_id raw tk chunk w)))) u
                = map_of (upload_entries (fsys w)) u))"
proof (intro conjI impI)
  assume "plain_name tok \<and> save_uploaded_files sf fls tok fs = Inr (saved, fs')"
  then have "save_uploaded_files sf fls tok fs = Inr (saved, fs')" by simp
  note r = save_uploaded_files_result [OF assms this]
  show "\<forall>n \<in> set saved. plain_name n" using r by blast
  show "fst ` set (token_files fs' tok) = fst ` set (token_files fs tok) \<union> set saved"
    using r by blast
  show "\<forall>n \<in> fst ` set (token_files fs tok).
                map_of (token_files fs' tok) n = map_of (token_files fs tok) n"
    using r by blast
  show "\<forall>u. u \<noteq> tok \<longrightarrow> map_of (upload_entries fs') u = map_of (upload_entries fs) u"
    using r by blast
  show "chunked_uploads fs' = chunked_uploads fs" using r by blast
next
  assume "plain_name tok \<and> sf raw = [] \<and> makedirs tok fs = Inr fsm"
  then show "save_uploaded_files sf [(raw, content)] tok fs = Inr ([], fsm)"
    using save_uploaded_files_skips [of sf raw tok fs fsm content] by blast
next
  assume "get (dbase w) tk = Some share \<and> plain_name tk \<and> plain_name file_id"
  then have g: "get (dbase w) tk = Some share" by simp
  let ?new = "token_files (fsys (snd (upload_chunk sf flushed c n file_id raw tk chunk w))) tk"
  note t = upload_chunk_token_dir [OF g, of sf flushed c n file_id raw chunk]
  from t have cases: "?new = token_files (fsys w) tk
     \<or> (sf raw \<noteq> [] \<and> (\<exists>blob. ?new = AList.update (sf raw) blob (token_files (fsys w) tk)))"
    by blast
  show "fst ` set ?new \<subseteq> insert (sf raw) (fst ` set (token_files (fsys w) tk))"
  proof -
    from cases have "fst ` set ?new = fst ` set (token_files (fsys w) tk)
      \<or> fst ` set ?new = {sf raw} \<union> fst ` set (token_files (fsys w) tk)"
      using dom_update [of "sf raw" _ "token_files (fsys w) tk"] by metis
    then show ?thesis by blast
  qed
  show "\<forall>u. u \<noteq> tk \<longrightarrow>
              map_of (upload_entries
                        (fsys (snd (upload_chunk sf flushed c n file_id raw tk chunk w)))) u
                = map_of (upload_entries (fsys w)) u"
    using t by blast
  assume "sf raw \<in> fst ` set ?new"
  then show "sf raw \<in> fst ` set (token_files (fsys w) tk) \<or> plain_name (sf raw)"
    using cases assms by auto
qed

theorem save_stays_in_token_directory_witness:
  "secure_filename ''../secret'' = ''secret''
   \<and> plain_name ''tok''
   \<and> save_uploaded_files secure_filename [(''../secret'', ''S'')] ''tok'' (fsys upload_store)
       = Inr ([''secret''],
              set_token_files ''tok'' [(''a.txt'', ''OLD''), (''secret'', ''S'')] (fsys upload_store))
   \<and> plain_name ''secret''
   \<and> secure_filename ''../..'' = []
   \<and> makedirs ''tok'' (fsys upload_store) = Inr (fsys upload_store)
   \<and> save_uploaded_files secure_filename [(''../..'', ''X'')] ''tok'' (fsys upload_store)
       = Inr ([], fsys upload_store)
   \<and> get (dbase upload_store) ''tok''
       = Some (share_of_row (example_row ''tok'' ''r@example.org'' [''a.txt''] 3600))
   \<and> plain_name ''fid''
   \<and> token_files (fsys (snd (upload_chunk secure_filename held_back 1 1 ''fid'' ''../secret''
        ''tok'' ''S'' upload_store))) ''tok'' = [(''a.txt'', ''OLD''), (''secret'', ''S'')]
   \<and> upload_entries (fsys (snd (upload_chunk secure_filename held_back 1 1 ''fid'' ''../secret''
        ''tok'' ''S'' upload_store)))
       = [(''tok'', Dir [(''a.txt'', ''OLD''), (''secret'', ''S'')])]"
proof -
  have sf: "\<forall>x. secure_filename x = [] \<or> plain_name (secure_filename x)"
    using secure_filename_safe by blast
  have s1: "secure_filename ''../secret'' = ''secret''" by code_simp
  have s2: "secure_filename ''../..'' = []" by code_simp
  have pt: "plain_name ''tok''" and pf: "plain_name ''fid''" by (rule plain_name_examples)+
  have r: "save_uploaded_files secure_filename [(''../secret'', ''S'')] ''tok'' (fsys upload_store)
       = Inr ([''secret''],
              set_token_files ''tok'' [(''a.txt'', ''OLD''), (''secret'', ''S'')] (fsys upload_store))"
    by code_simp
  have m: "makedirs ''tok'' (fsys upload_store) = Inr (fsys upload_store)" by code_simp
  have g: "get (dbase upload_store) ''tok''
       = Some (share_of_row (example_row ''tok'' ''r@example.org'' [''a.txt''] 3600))"
    by (rule get_upload_store)
  have t: "token_files (fsys (snd (upload_chunk secure_filename held_back 1 1 ''fid'' ''../secret''
        ''tok'' ''S'' upload_store))) ''tok'' = [(''a.txt'', ''OLD''), (''secret'', ''S'')]"
    by code_simp
  have u: "upload_entries (fsys (snd (upload_chunk secure_filename held_back 1 1 ''fid''
        ''../secret'' ''tok'' ''S'' upload_store)))
       = [(''tok'', Dir [(''a.txt'', ''OLD''), (''secret'', ''S'')])]"
    by code_simp
  note A = save_stays_in_token_directory [OF sf, where fls = "[(''../secret'', ''S'')]"
      and tok = "''tok''" and fs = "fsys upload_store" and saved = "[''secret'']"
      and fs' = "set_token_files ''tok'' [(''a.txt'', ''OLD''), (''secret'', ''S'')] (fsys upload_store)"
      and raw = "''../..''" and fsm = "fsys upload_store" and content = "''X''"]
  note B = save_stays_in_token_directory [OF sf, where w = upload_store and tk = "''tok''"
      and file_id = "''fid''" and raw = "''../secret''" and flushed = held_back and c = 1
      and n = 1 and chunk = "''S''"]
  have p: "plain_name ''secret''" using A r pt by simp
  have k: "save_uploaded_files secure_filename [(''../..'', ''X'')] ''tok'' (fsys upload_store)
       = Inr ([], fsys upload_store)"
    using A s2 m pt by blast
  have p': "secure_filename ''../secret'' \<in> fst ` set (token_files (fsys upload_store) ''tok'')
            \<or> plain_name (secure_filename ''../secret'')"
    using B g pt pf t s1 by simp
  show ?thesis using s1 pt r p s2 m k g pf t u by blast
qed

end
